theory Spec2Isabelle
  imports Main
begin

section \<open>Data model of printersora.ino\<close>

text \<open>
  The sketch keeps two global structs, \<open>configuration\<close> (struct Settings) and
  \<open>document\<close> (struct Document), and talks to three collaborators: the SD card,
  the thermal printer and the serial console. The structs are records; the calls made on
  the printer and on the console are recorded, in order, in two traces of the state.
  Arduino \<open>String\<close> values are character lists. An \<open>int\<close> of the board
  (Arduino Ethernet, an AVR) has 16 bits and a \<open>long\<close> 32 bits: the fields are
  integers and the narrowing is written out where a \<open>long\<close> is stored into them.
\<close>

record Settings =
  charset :: int
  codePage :: int
  lineHeight :: int
  heatTime :: int
  dotPrintTime :: int
  dotFeedTime :: int
  fontSize :: string
  jobs :: string

text \<open>The field \<open>image\<close> of the source is \<open>image_path\<close> here (\<open>image\<close> is a constant of HOL).\<close>

record Document =
  imageWidth :: int
  imageHeight :: int
  image_path :: string
  bodyText :: string

datatype printer_call =
    Begin int
  | SetSize char
  | SetLineHeight int
  | SetCharset int
  | SetCodePage int
  | Feed int
  | PrintBitmap int int
  | BoldOn
  | BoldOff
  | Justify char
  | Println string
  | Sleep
  | Wake
  | SetDefault

datatype serial_call = Serial_print string | Serial_println string

record state =
  configuration :: Settings
  document :: Document
  printer :: "printer_call list"
  serial :: "serial_call list"

text \<open>
  An open \<open>File\<close> of the SD library: whether it is a directory, its name, the bytes
  \<open>read()\<close> yields and the entries \<open>openNextFile()\<close> yields. The card answers
  \<open>SD.begin\<close>, \<open>SD.exists\<close> and \<open>SD.open\<close>; a \<open>File\<close> that tests false
  is \<open>None\<close>.
\<close>

datatype sdfile = SDFile (isDirectory: bool) (name: string) (bytes: string) (entries: "sdfile list")

record sdcard =
  sd_begin :: bool
  sd_exists :: "string \<Rightarrow> bool"
  sd_open :: "string \<Rightarrow> sdfile option"

definition SETTINGS_FILE :: string where
  "SETTINGS_FILE = ''/settings.txt''"

text \<open>
  \<open>CHARSET_USA\<close> and \<open>CODEPAGE_CP437\<close> are macros of the printer library's header
  (both 0 there). Every statement below refers to them by name only.
\<close>

definition CHARSET_USA :: int where
  "CHARSET_USA = 0"

definition CODEPAGE_CP437 :: int where
  "CODEPAGE_CP437 = 0"

definition Settings_init :: "Settings \<Rightarrow> Settings" where
  "Settings_init c = c\<lparr>charset := CHARSET_USA, codePage := CODEPAGE_CP437, lineHeight := 28,
     heatTime := 120, dotPrintTime := 30000, dotFeedTime := 2100, fontSize := ''S'',
     jobs := ''/jobs/''\<rparr>"

definition Document_init :: "Document \<Rightarrow> Document" where
  "Document_init d = d\<lparr>imageWidth := 0, imageHeight := 0, image_path := [], bodyText := []\<rparr>"

definition printer_do :: "printer_call \<Rightarrow> state \<Rightarrow> state" where
  "printer_do c st = st\<lparr>printer := printer st @ [c]\<rparr>"

definition serial_do :: "serial_call \<Rightarrow> state \<Rightarrow> state" where
  "serial_do c st = st\<lparr>serial := serial st @ [c]\<rparr>"

section \<open>The String operations the sketch uses\<close>

text \<open>
  \<open>String::toInt\<close> is \<open>atol\<close> on the character buffer: leading white space is
  skipped, one sign is accepted, and the decimal digits that follow are accumulated; the
  conversion stops at the first other character and is 0 when there is no digit. The
  value is a 32-bit \<open>long\<close>; storing it into an \<open>int\<close> field keeps its low 16 bits.
\<close>

definition wrap32 :: "int \<Rightarrow> int" where
  "wrap32 n = (n + 2147483648) mod 4294967296 - 2147483648"

definition wrap16 :: "int \<Rightarrow> int" where
  "wrap16 n = (n + 32768) mod 65536 - 32768"

definition isspace :: "char \<Rightarrow> bool" where
  "isspace c = (c = CHR '' '' \<or> c = CHR 0x09 \<or> c = CHR 0x0A \<or> c = CHR 0x0B \<or> c = CHR 0x0C
     \<or> c = CHR 0x0D)"

definition isdigit :: "char \<Rightarrow> bool" where
  "isdigit c = (48 \<le> (of_char c :: nat) \<and> (of_char c :: nat) \<le> 57)"

fun digits_value :: "int \<Rightarrow> string \<Rightarrow> int" where
  "digits_value acc [] = acc"
| "digits_value acc (c # cs) =
     (if isdigit c then digits_value (acc * 10 + (of_char c - 48)) cs else acc)"

definition toInt :: "string \<Rightarrow> int" where
  "toInt s =
     (case dropWhile isspace s of
        [] \<Rightarrow> 0
      | c # cs \<Rightarrow>
          if c = CHR ''-'' then wrap32 (- digits_value 0 cs)
          else if c = CHR ''+'' then wrap32 (digits_value 0 cs)
          else wrap32 (digits_value 0 (c # cs)))"

text \<open>\<open>String::charAt\<close> answers the NUL character outside the string.\<close>

definition charAt :: "string \<Rightarrow> nat \<Rightarrow> char" where
  "charAt s i = (if i < length s then s ! i else CHR 0x00)"

text \<open>
  A \<open>String\<close> keeps every byte appended to it, NUL bytes included, but its buffer is
  read as a C string wherever it meets one: \<open>c_str\<close> is the buffer up to its first
  NUL byte. \<open>String::equals(const char *)\<close>, which is \<open>operator ==\<close> against a
  literal, answers for an empty \<open>String\<close> whether the literal is empty and otherwise
  whether \<open>strcmp(buffer, cstr)\<close> is 0.
\<close>

definition c_str :: "string \<Rightarrow> string" where
  "c_str s = takeWhile (\<lambda>c. c \<noteq> CHR 0x00) s"

definition String_equals :: "string \<Rightarrow> string \<Rightarrow> bool" where
  "String_equals s cstr = (if length s = 0 then c_str cstr = [] else c_str s = c_str cstr)"

section \<open>applySetting\<close>

definition applySetting :: "string \<Rightarrow> string \<Rightarrow> state \<Rightarrow> state" where
  "applySetting settingName settingValue st =
     (let st1 =
        (if String_equals settingName ''font_size'' then
           st\<lparr>configuration := (configuration st)\<lparr>fontSize := settingValue\<rparr>\<rparr>
         else if String_equals settingName ''jobs'' then
           st\<lparr>configuration := (configuration st)\<lparr>jobs := settingValue\<rparr>\<rparr>
         else if String_equals settingName ''line_height'' then
           st\<lparr>configuration := (configuration st)\<lparr>lineHeight := wrap16 (toInt settingValue)\<rparr>\<rparr>
         else if String_equals settingName ''charset'' then
           st\<lparr>configuration := (configuration st)\<lparr>charset := wrap16 (toInt settingValue)\<rparr>\<rparr>
         else if String_equals settingName ''codepage'' then
           st\<lparr>configuration := (configuration st)\<lparr>codePage := wrap16 (toInt settingValue)\<rparr>\<rparr>
         else if String_equals settingName ''heat_time'' then
           st\<lparr>configuration := (configuration st)\<lparr>heatTime := wrap16 (toInt settingValue)\<rparr>\<rparr>
         else st)
      in
        if String_equals settingName ''image'' then
          st1\<lparr>document := (document st1)\<lparr>image_path := settingValue\<rparr>\<rparr>
        else if String_equals settingName ''body_text'' then
          st1\<lparr>document := (document st1)\<lparr>bodyText := settingValue\<rparr>\<rparr>
        else if String_equals settingName ''width'' then
          st1\<lparr>document := (document st1)\<lparr>imageWidth := wrap16 (toInt settingValue)\<rparr>\<rparr>
        else if String_equals settingName ''height'' then
          st1\<lparr>document := (document st1)\<lparr>imageHeight := wrap16 (toInt settingValue)\<rparr>\<rparr>
        else st1)"

section \<open>readSettingsFromFile\<close>

text \<open>
  The stream is the list of bytes not yet read. \<open>available()\<close> is true while the list
  is not empty; \<open>read()\<close> answers -1 at the end of the stream, which the assignment to
  the \<open>char\<close> variable turns into the character 0xFF.
\<close>

definition available :: "string \<Rightarrow> bool" where
  "available s = (s \<noteq> [])"

fun read :: "string \<Rightarrow> char \<times> string" where
  "read [] = (CHR 0xFF, [])"
| "read (c # s) = (c, s)"

text \<open>The first inner loop: \<open>while (available() && character != '[') character = read();\<close>\<close>

fun seekOpen :: "char \<Rightarrow> string \<Rightarrow> char \<times> string" where
  "seekOpen c [] = (c, [])"
| "seekOpen c (x # s) = (if c \<noteq> CHR ''['' then seekOpen x s else (c, x # s))"

text \<open>The second inner loop accumulates \<open>settingName\<close> until \<open>=\<close>.\<close>

fun readName :: "string \<Rightarrow> char \<Rightarrow> string \<Rightarrow> string \<times> char \<times> string" where
  "readName settingName c [] = (settingName, c, [])"
| "readName settingName c (x # s) =
     (if c \<noteq> CHR ''='' then readName (settingName @ [c]) x s else (settingName, c, x # s))"

text \<open>The third inner loop accumulates \<open>settingValue\<close> until \<open>]\<close>.\<close>

fun readValue :: "string \<Rightarrow> char \<Rightarrow> string \<Rightarrow> string \<times> char \<times> string" where
  "readValue settingValue c [] = (settingValue, c, [])"
| "readValue settingValue c (x # s) =
     (if c \<noteq> CHR '']'' then readValue (settingValue @ [c]) x s else (settingValue, c, x # s))"

text \<open>
  One pass of the outer loop body up to the test \<open>character == ']'\<close>: the name and the
  value accumulated so far, the last character read and the rest of the stream.
\<close>

definition readEntry :: "string \<Rightarrow> string \<Rightarrow> string \<Rightarrow> string \<times> string \<times> char \<times> string" where
  "readEntry settingName settingValue s =
     (let (c1, s1) = read s;
          (c2, s2) = seekOpen c1 s1;
          (c3, s3) = read s2;
          (nm, c4, s4) = readName settingName c3 s3;
          (c5, s5) = read s4;
          (vl, c6, s6) = readValue settingValue c5 s5
      in (nm, vl, c6, s6))"

lemma seekOpen_length: "length (snd (seekOpen c s)) \<le> length s"
  by (induction c s rule: seekOpen.induct) auto

lemma readName_length: "length (snd (snd (readName n c s))) \<le> length s"
  by (induction n c s rule: readName.induct) auto

lemma readValue_length: "length (snd (snd (readValue n c s))) \<le> length s"
  by (induction n c s rule: readValue.induct) auto

lemma read_length: "length (snd (read s)) \<le> length s"
  by (cases s) auto

lemma readEntry_length:
  assumes "s \<noteq> []"
  shows "length (snd (snd (snd (readEntry n v s)))) < length s"
proof -
  obtain c s0 where s: "s = c # s0" using assms by (cases s) auto
  obtain c2 s2 where a: "seekOpen c s0 = (c2, s2)" by (cases "seekOpen c s0")
  obtain c3 s3 where b: "read s2 = (c3, s3)" by (cases "read s2")
  obtain nm c4 s4 where c: "readName n c3 s3 = (nm, c4, s4)" by (cases "readName n c3 s3")
  obtain c5 s5 where d: "read s4 = (c5, s5)" by (cases "read s4")
  obtain vl c6 s6 where e: "readValue v c5 s5 = (vl, c6, s6)" by (cases "readValue v c5 s5")
  have "length s2 \<le> length s0" using seekOpen_length [of c s0] a by simp
  moreover have "length s3 \<le> length s2" using read_length [of s2] b by simp
  moreover have "length s4 \<le> length s3" using readName_length [of n c3 s3] c by simp
  moreover have "length s5 \<le> length s4" using read_length [of s4] d by simp
  moreover have "length s6 \<le> length s5" using readValue_length [of v c5 s5] e by simp
  ultimately show ?thesis
    by (simp add: readEntry_def s a b c d e)
qed

lemma readEntry_shorter:
  "readEntry n v s = (nm, vl, c, s') \<Longrightarrow> s \<noteq> [] \<Longrightarrow> length s' < length s"
  using readEntry_length [of s n v] by simp

text \<open>
  The outer loop \<open>while (document.available())\<close>. A pair is applied only when the last
  character read is \<open>]\<close>, and only then are the two strings reset.
\<close>

function readSettingsLoop :: "string \<Rightarrow> string \<Rightarrow> string \<Rightarrow> state \<Rightarrow> state" where
  "readSettingsLoop settingName settingValue s st =
     (if available s then
        (case readEntry settingName settingValue s of
           (nm, vl, c, s') \<Rightarrow>
             if c = CHR '']'' then
               readSettingsLoop [] [] s'
                 (applySetting nm vl
                    (serial_do (Serial_println (''Applying setting: '' @ nm @ ''='' @ vl)) st))
             else readSettingsLoop nm vl s' st)
      else st)"
  by pat_completeness auto
termination
  by (relation "measure (\<lambda>(n, v, s, st). length s)")
     (auto simp: available_def dest!: sym [of _ "readEntry _ _ _"] readEntry_shorter)

declare readSettingsLoop.simps [simp del]

definition readSettingsFromFile :: "sdfile option \<Rightarrow> state \<Rightarrow> state" where
  "readSettingsFromFile f st =
     (case f of None \<Rightarrow> st | Some d \<Rightarrow> readSettingsLoop [] [] (bytes d) st)"

text \<open>\<open>readSDSettings\<close> opens the file only when it exists and logs an error otherwise.\<close>

definition readSDSettings :: "sdcard \<Rightarrow> string \<Rightarrow> state \<Rightarrow> state" where
  "readSDSettings sd filename st =
     (if sd_exists sd filename then readSettingsFromFile (sd_open sd filename) st
      else serial_do (Serial_println (''Error opening: '' @ filename)) st)"

section \<open>The print pipeline\<close>

definition setPrinterParameters :: "state \<Rightarrow> state" where
  "setPrinterParameters st =
     (let st1 = printer_do (Begin (heatTime (configuration st))) st;
          st2 = printer_do (SetSize (charAt (fontSize (configuration st1)) 0)) st1;
          st3 = printer_do (SetLineHeight (lineHeight (configuration st2))) st2;
          st4 = printer_do (SetCharset (charset (configuration st3))) st3
      in printer_do (SetCodePage (codePage (configuration st4))) st4)"

text \<open>
  \<open>printer.printBitmap(w, h, stream)\<close> belongs to the printer library. What the sketch
  depends on is how much of the stream a call consumes, so the driver is a parameter:
  given the width, the height and the unread bytes it answers the bytes left unread, or
  \<open>None\<close> when the call never returns (the library waits for bytes that do not come).
\<close>

type_synonym bitmap_driver = "int \<Rightarrow> int \<Rightarrow> string \<Rightarrow> string option"

text \<open>
  The loop \<open>while (imageFile.available()) printer.printBitmap(...)\<close> has no bound of
  its own: it ends when the driver has consumed the whole stream. Not returning is
  \<open>None\<close>.
\<close>

partial_function (option) printBitmaps ::
  "bitmap_driver \<Rightarrow> int \<Rightarrow> int \<Rightarrow> string \<Rightarrow> state \<Rightarrow> state option" where
  "printBitmaps printBitmap w h s st =
     (if available s then
        (case printBitmap w h s of
           None \<Rightarrow> None
         | Some s' \<Rightarrow>
             printBitmaps printBitmap w h s'
               (printer_do (PrintBitmap w h) st))
      else Some st)"

definition printImage ::
  "bitmap_driver \<Rightarrow> sdcard \<Rightarrow> string \<Rightarrow> int \<Rightarrow> int \<Rightarrow> state \<Rightarrow> (bool \<times> state) option" where
  "printImage printBitmap sd filename w h st =
     (if sd_exists sd filename then
        (case sd_open sd filename of
           Some imageFile \<Rightarrow>
             (let st1 = serial_do (Serial_println (''Printing image from file: '' @ filename)) st;
                  st2 = printer_do (Feed 1) st1
              in case printBitmaps printBitmap w h (bytes imageFile) st2 of
                   None \<Rightarrow> None
                 | Some st3 \<Rightarrow> Some (True, st3))
         | None \<Rightarrow> Some (False, st))
      else Some (False, st))"

text \<open>
  \<open>Stream::readStringUntil\<close> collects the characters before the terminator, consumes
  the terminator, and stops at the end of the stream.
\<close>

fun readStringUntil :: "char \<Rightarrow> string \<Rightarrow> string \<times> string" where
  "readStringUntil t [] = ([], [])"
| "readStringUntil t (c # s) =
     (if c = t then ([], s) else (case readStringUntil t s of (r, s') \<Rightarrow> (c # r, s')))"

lemma readStringUntil_length: "length (snd (readStringUntil t s)) \<le> length s"
  by (induction t s rule: readStringUntil.induct) (auto split: prod.splits)

lemma readStringUntil_shorter:
  "readStringUntil t s = (r, s') \<Longrightarrow> s \<noteq> [] \<Longrightarrow> length s' < length s"
  using readStringUntil_length [of t "tl s"]
  by (cases s) (auto split: if_splits prod.splits)

text \<open>The loop \<open>while (dataFile.available()) printer.println(dataFile.readStringUntil(10))\<close>.\<close>

function printLines :: "string \<Rightarrow> state \<Rightarrow> state" where
  "printLines s st =
     (if available s then
        (case readStringUntil (CHR 0x0A) s of
           (line, s') \<Rightarrow> printLines s' (printer_do (Println line) st))
      else st)"
  by pat_completeness auto
termination
  by (relation "measure (\<lambda>(s, st). length s)")
     (auto simp: available_def dest!: sym [of _ "readStringUntil _ _"] readStringUntil_shorter)

declare printLines.simps [simp del]

definition printText :: "sdcard \<Rightarrow> string \<Rightarrow> state \<Rightarrow> bool \<times> state" where
  "printText sd filename st =
     (if sd_exists sd filename then
        (case sd_open sd filename of
           Some dataFile \<Rightarrow>
             (let st1 = serial_do (Serial_println (''Printing text from file: '' @ filename)) st;
                  st2 = printer_do (Feed 1) st1;
                  st3 = printer_do BoldOn st2;
                  st4 = printer_do (Justify (CHR ''C'')) st3;
                  st5 = printer_do (SetSize (CHR ''M'')) st4
              in case readStringUntil (CHR 0x0A) (bytes dataFile) of
                   (title, s) \<Rightarrow>
                     (let st6 = printer_do (Println title) st5;
                          st7 = printer_do (SetSize (charAt (fontSize (configuration st6)) 0)) st6;
                          st8 = printer_do (Justify (CHR ''L'')) st7;
                          st9 = printer_do BoldOff st8
                      in (True, printLines s st9)))
         | None \<Rightarrow> (False, st))
      else (False, st))"

text \<open>The body of \<open>if (! entry.isDirectory())\<close> in the directory loop: one job.\<close>

definition printDocument :: "bitmap_driver \<Rightarrow> sdcard \<Rightarrow> sdfile \<Rightarrow> state \<Rightarrow> state option" where
  "printDocument printBitmap sd entry st =
     (let st1 = serial_do (Serial_print ''Printing document: '') st;
          st2 = serial_do (Serial_println (name entry)) st1;
          st3 = serial_do (Serial_println (name entry)) st2;
          st4 = st3\<lparr>document := Document_init (document st3)\<rparr>;
          st5 = readSettingsFromFile (Some entry) st4;
          st6 = setPrinterParameters st5
      in case printImage printBitmap sd (image_path (document st6)) (imageWidth (document st6))
                (imageHeight (document st6)) st6 of
           None \<Rightarrow> None
         | Some (b, st7) \<Rightarrow> Some (snd (printText sd (bodyText (document st7)) st7)))"

text \<open>
  The loop \<open>while (true)\<close> over \<open>dir.openNextFile()\<close>: it ends at the first entry that
  tests false, that is when the entries are exhausted.
\<close>

fun printEntries ::
  "bitmap_driver \<Rightarrow> sdcard \<Rightarrow> string \<Rightarrow> sdfile list \<Rightarrow> state \<Rightarrow> state option" where
  "printEntries printBitmap sd directoryName [] st =
     Some (serial_do (Serial_println (''No files left on '' @ directoryName)) st)"
| "printEntries printBitmap sd directoryName (entry # es) st =
     (if \<not> isDirectory entry then
        (case printDocument printBitmap sd entry st of
           None \<Rightarrow> None
         | Some st' \<Rightarrow> printEntries printBitmap sd directoryName es st')
      else printEntries printBitmap sd directoryName es st)"

definition printFromDirectory ::
  "bitmap_driver \<Rightarrow> sdcard \<Rightarrow> string \<Rightarrow> state \<Rightarrow> state option" where
  "printFromDirectory printBitmap sd directoryName st =
     (case
        (if sd_exists sd directoryName then
           (case
              (case sd_open sd directoryName of
                 Some dir \<Rightarrow> printEntries printBitmap sd directoryName (entries dir) st
               | None \<Rightarrow> Some st) of
              None \<Rightarrow> None
            | Some st1 \<Rightarrow>
                Some (serial_do (Serial_println (''Done with directory '' @ directoryName)) st1))
         else Some st) of
        None \<Rightarrow> None
      | Some st2 \<Rightarrow> Some (printer_do (Feed 2) st2))"

text \<open>
  The two statements of \<open>setup\<close> under "Load settings from SD Card":
  \<open>configuration.init(); readSDSettings(SETTINGS_FILE);\<close>
\<close>

definition loadSettings :: "sdcard \<Rightarrow> state \<Rightarrow> state" where
  "loadSettings sd st =
     (let st1 = st\<lparr>configuration := Settings_init (configuration st)\<rparr>
      in readSDSettings sd SETTINGS_FILE st1)"

text \<open>
  \<open>setup\<close>, without the pin, LED, baud-rate and delay calls, which touch neither the
  two structs nor the printer and console traces. The name \<open>setup\<close> is a keyword of
  the theory language, so the function is \<open>setup_sketch\<close> here.
\<close>

definition setup_sketch :: "bitmap_driver \<Rightarrow> sdcard \<Rightarrow> state \<Rightarrow> state option" where
  "setup_sketch printBitmap sd st =
     (if \<not> sd_begin sd then Some (serial_do (Serial_println ''No SD Card Found'') st)
      else
        (let st2 = loadSettings sd st
         in case printFromDirectory printBitmap sd (jobs (configuration st2)) st2 of
              None \<Rightarrow> None
            | Some st3 \<Rightarrow>
                Some (serial_do (Serial_println ''Done init'')
                        (printer_do SetDefault (printer_do Wake (printer_do Sleep st3))))))"

text \<open>
  The globals before \<open>setup\<close> runs: C++ zero-initialises the integers and the
  \<open>String\<close> members start empty; nothing has been sent to the printer or the console.
\<close>

definition initial_state :: state where
  "initial_state =
     \<lparr>configuration = \<lparr>charset = 0, codePage = 0, lineHeight = 0, heatTime = 0,
        dotPrintTime = 0, dotFeedTime = 0, fontSize = [], jobs = []\<rparr>,
      document = \<lparr>imageWidth = 0, imageHeight = 0, image_path = [], bodyText = []\<rparr>,
      printer = [], serial = []\<rparr>"

section \<open>What the settings parser hands to applySetting\<close>

text \<open>
  One application as the parser performs it: the console line, then \<open>applySetting\<close>.
\<close>

fun applyLogged :: "state \<Rightarrow> string \<times> string \<Rightarrow> state" where
  "applyLogged st (k, v) =
     applySetting k v (serial_do (Serial_println (''Applying setting: '' @ k @ ''='' @ v)) st)"

text \<open>
  The same loop as \<open>readSettingsLoop\<close>, collecting the pairs it applies instead of
  applying them: the sequence of pairs the parser emits on a stream.
\<close>

function appliedPairs :: "string \<Rightarrow> string \<Rightarrow> string \<Rightarrow> (string \<times> string) list" where
  "appliedPairs settingName settingValue s =
     (if available s then
        (case readEntry settingName settingValue s of
           (nm, vl, c, s') \<Rightarrow>
             if c = CHR '']'' then (nm, vl) # appliedPairs [] [] s'
             else appliedPairs nm vl s')
      else [])"
  by pat_completeness auto
termination
  by (relation "measure (\<lambda>(n, v, s). length s)")
     (auto simp: available_def dest!: sym [of _ "readEntry _ _ _"] readEntry_shorter)

declare appliedPairs.simps [simp del]

text \<open>
  A settings text: entries \<open>[k=v]\<close>, each preceded by a stretch of other text, and a
  trailing stretch after the last one.
\<close>

fun settingsText :: "(string \<times> string \<times> string) list \<Rightarrow> string \<Rightarrow> string" where
  "settingsText [] trailing = trailing"
| "settingsText ((gap, k, v) # es) trailing =
     gap @ ''['' @ k @ ''='' @ v @ '']'' @ settingsText es trailing"

fun pairsOf :: "(string \<times> string \<times> string) list \<Rightarrow> (string \<times> string) list" where
  "pairsOf [] = []"
| "pairsOf ((gap, k, v) # es) = (k, v) # pairsOf es"

definition plain :: "string \<Rightarrow> bool" where
  "plain s = (CHR ''['' \<notin> set s \<and> CHR ''='' \<notin> set s \<and> CHR '']'' \<notin> set s)"

fun wellFormed :: "(string \<times> string \<times> string) list \<Rightarrow> bool" where
  "wellFormed [] = True"
| "wellFormed ((gap, k, v) # es) = (CHR ''['' \<notin> set gap \<and> plain k \<and> plain v \<and> wellFormed es)"

text \<open>
  An entry that the end of the stream cuts short: what follows its \<open>[\<close> either holds no
  \<open>=\<close>, or holds no \<open>]\<close> after its first \<open>=\<close>.
\<close>

definition unterminated :: "string \<Rightarrow> bool" where
  "unterminated rest =
     (case dropWhile (\<lambda>c. c \<noteq> CHR ''='') rest of
        [] \<Rightarrow> True
      | c # v \<Rightarrow> CHR '']'' \<notin> set v)"

lemma c_str_simps [simp]:
  "c_str [] = []"
  "c_str (c # s) = (if c = CHR 0x00 then [] else c # c_str s)"
  by (simp_all add: c_str_def)

lemma String_equals_c_str: "String_equals s cstr = (c_str s = c_str cstr)"
  by (cases s) (auto simp: String_equals_def)

lemma c_str_no_nul: "CHR 0x00 \<notin> set s \<Longrightarrow> c_str s = s"
  by (induction s) auto

lemma readSettingsLoop_fold:
  "readSettingsLoop n v s st = foldl applyLogged st (appliedPairs n v s)"
proof (induction n v s st rule: readSettingsLoop.induct)
  case (1 n v s st)
  show ?case
  proof (cases "available s")
    case False
    then show ?thesis
      by (subst readSettingsLoop.simps, subst appliedPairs.simps) simp
  next
    case True
    obtain nm vl c s' where e: "readEntry n v s = (nm, vl, c, s')"
      by (cases "readEntry n v s") auto
    show ?thesis
    proof (cases "c = CHR '']''")
      case True
      with \<open>available s\<close> e "1.IH"(1) [OF \<open>available s\<close> e [symmetric] refl refl True]
      show ?thesis
        by (subst readSettingsLoop.simps, subst appliedPairs.simps) simp
    next
      case False
      with \<open>available s\<close> e "1.IH"(2) [OF \<open>available s\<close> e [symmetric] refl refl False]
      show ?thesis
        by (subst readSettingsLoop.simps, subst appliedPairs.simps) simp
    qed
  qed
qed

lemma readSettingsFromFile_fold:
  "readSettingsFromFile (Some f) st = foldl applyLogged st (appliedPairs [] [] (bytes f))"
  by (simp add: readSettingsFromFile_def readSettingsLoop_fold)

lemma seekOpen_found: "seekOpen (CHR ''['') r = (CHR ''['', r)"
  by (cases r) auto

lemma seekOpen_skip:
  "CHR ''['' \<notin> set (c # g) \<Longrightarrow> seekOpen c (g @ CHR ''['' # r) = (CHR ''['', r)"
  by (induction g arbitrary: c) (auto simp: seekOpen_found)

lemma seekOpen_end:
  "CHR ''['' \<notin> set (c # g) \<Longrightarrow> seekOpen c g = (last (c # g), [])"
  by (induction g arbitrary: c) auto

lemma read_seekOpen:
  "CHR ''['' \<notin> set g \<Longrightarrow>
   (case read (g @ CHR ''['' # r) of (c, s) \<Rightarrow> seekOpen c s) = (CHR ''['', r)"
  by (cases g) (auto simp: seekOpen_found seekOpen_skip)

lemma readName_found: "readName n (CHR ''='') r = (n, CHR ''='', r)"
  by (cases r) auto

lemma readName_skip:
  "CHR ''='' \<notin> set (c # k) \<Longrightarrow> readName n c (k @ CHR ''='' # r) = (n @ c # k, CHR ''='', r)"
  by (induction k arbitrary: c n) (auto simp: readName_found)

lemma readName_end:
  "CHR ''='' \<notin> set (c # k) \<Longrightarrow> readName n c k = (n @ butlast (c # k), last (c # k), [])"
  by (induction k arbitrary: c n) auto

lemma read_readName:
  "CHR ''='' \<notin> set k \<Longrightarrow>
   (case read (k @ CHR ''='' # r) of (c, s) \<Rightarrow> readName n c s) = (n @ k, CHR ''='', r)"
  by (cases k) (auto simp: readName_found readName_skip)

lemma readValue_found: "readValue n (CHR '']'') r = (n, CHR '']'', r)"
  by (cases r) auto

lemma readValue_skip:
  "CHR '']'' \<notin> set (c # k) \<Longrightarrow> readValue n c (k @ CHR '']'' # r) = (n @ c # k, CHR '']'', r)"
  by (induction k arbitrary: c n) (auto simp: readValue_found)

lemma readValue_end:
  "CHR '']'' \<notin> set (c # k) \<Longrightarrow> readValue n c k = (n @ butlast (c # k), last (c # k), [])"
  by (induction k arbitrary: c n) auto

lemma read_readValue:
  "CHR '']'' \<notin> set k \<Longrightarrow>
   (case read (k @ CHR '']'' # r) of (c, s) \<Rightarrow> readValue n c s) = (n @ k, CHR '']'', r)"
  by (cases k) (auto simp: readValue_found readValue_skip)

lemma readEntry_entry:
  assumes "CHR ''['' \<notin> set g" "CHR ''='' \<notin> set k" "CHR '']'' \<notin> set v"
  shows "readEntry n m (g @ ''['' @ k @ ''='' @ v @ '']'' @ r) = (n @ k, m @ v, CHR '']'', r)"
proof -
  obtain c1 s1 where a: "read (g @ CHR ''['' # k @ CHR ''='' # v @ CHR '']'' # r) = (c1, s1)"
    by force
  have b: "seekOpen c1 s1 = (CHR ''['', k @ CHR ''='' # v @ CHR '']'' # r)"
    using read_seekOpen [OF assms(1), where r = "k @ CHR ''='' # v @ CHR '']'' # r"] a by simp
  obtain c3 s3 where c: "read (k @ CHR ''='' # v @ CHR '']'' # r) = (c3, s3)"
    by force
  have d: "readName n c3 s3 = (n @ k, CHR ''='', v @ CHR '']'' # r)"
    using read_readName [OF assms(2), where r = "v @ CHR '']'' # r" and n = n] c by simp
  obtain c5 s5 where e: "read (v @ CHR '']'' # r) = (c5, s5)"
    by force
  have f: "readValue m c5 s5 = (m @ v, CHR '']'', r)"
    using read_readValue [OF assms(3), where r = r and n = m] e by simp
  show ?thesis
    by (simp add: readEntry_def a b c d e f)
qed

lemma appliedPairs_entry:
  assumes "CHR ''['' \<notin> set g" "CHR ''='' \<notin> set k" "CHR '']'' \<notin> set v"
  shows "appliedPairs [] [] (g @ ''['' @ k @ ''='' @ v @ '']'' @ r) = (k, v) # appliedPairs [] [] r"
  using readEntry_entry [OF assms, of "[]" "[]" r]
  by (subst appliedPairs.simps) (simp add: available_def)

lemma appliedPairs_stop:
  assumes "readEntry n m s = (nm, vl, c, [])" "c \<noteq> CHR '']''"
  shows "appliedPairs n m s = []"
proof -
  have "appliedPairs nm vl [] = []"
    by (subst appliedPairs.simps) (simp add: available_def)
  with assms show ?thesis
    by (subst appliedPairs.simps) simp
qed

lemma readEntry_no_open:
  assumes "CHR ''['' \<notin> set t" "t \<noteq> []"
  shows "readEntry n m t = (n, m, CHR 0xFF, [])"
proof -
  obtain c t' where t: "t = c # t'" using assms(2) by (cases t) auto
  have "seekOpen c t' = (last (c # t'), [])"
    using assms(1) t by (intro seekOpen_end) simp
  then show ?thesis
    by (simp add: readEntry_def t)
qed

lemma appliedPairs_no_open:
  assumes "CHR ''['' \<notin> set t"
  shows "appliedPairs [] [] t = []"
proof (cases "t = []")
  case True
  then show ?thesis by (subst appliedPairs.simps) (simp add: available_def)
next
  case False
  show ?thesis
    by (rule appliedPairs_stop [OF readEntry_no_open [OF assms False]]) simp
qed

lemma readEntry_no_equals:
  assumes "CHR ''['' \<notin> set g" "CHR ''='' \<notin> set k"
  shows "\<exists>nm. readEntry n m (g @ CHR ''['' # k) = (nm, m, CHR 0xFF, [])"
proof -
  obtain c1 s1 where a: "read (g @ CHR ''['' # k) = (c1, s1)"
    by force
  have b: "seekOpen c1 s1 = (CHR ''['', k)"
    using read_seekOpen [OF assms(1), where r = k] a by simp
  show ?thesis
  proof (cases k)
    case Nil
    with a b show ?thesis by (simp add: readEntry_def)
  next
    case (Cons x k')
    have "readName n x k' = (n @ butlast (x # k'), last (x # k'), [])"
      using assms(2) Cons by (intro readName_end) simp
    then obtain nm c4 where "readName n x k' = (nm, c4, [])" by blast
    with a b Cons show ?thesis by (simp add: readEntry_def)
  qed
qed

lemma readEntry_no_close:
  assumes "CHR ''['' \<notin> set g" "CHR ''='' \<notin> set k" "CHR '']'' \<notin> set v"
  shows "\<exists>vl c. readEntry n m (g @ CHR ''['' # k @ CHR ''='' # v) = (n @ k, vl, c, []) \<and> c \<noteq> CHR '']''"
proof -
  obtain c1 s1 where a: "read (g @ CHR ''['' # k @ CHR ''='' # v) = (c1, s1)"
    by force
  have b: "seekOpen c1 s1 = (CHR ''['', k @ CHR ''='' # v)"
    using read_seekOpen [OF assms(1), where r = "k @ CHR ''='' # v"] a by simp
  obtain c3 s3 where c: "read (k @ CHR ''='' # v) = (c3, s3)"
    by force
  have d: "readName n c3 s3 = (n @ k, CHR ''='', v)"
    using read_readName [OF assms(2), where r = v and n = n] c by simp
  show ?thesis
  proof (cases v)
    case Nil
    with a b c d show ?thesis by (simp add: readEntry_def)
  next
    case (Cons x v')
    have e: "readValue m x v' = (m @ butlast (x # v'), last (x # v'), [])"
      using assms(3) Cons by (intro readValue_end) simp
    have "last (x # v') \<in> set v" unfolding Cons by (rule last_in_set) simp
    with assms(3) have "last (x # v') \<noteq> CHR '']''" by auto
    with e obtain vl c6 where "readValue m x v' = (vl, c6, [])" and "c6 \<noteq> CHR '']''" by blast
    with a b c d Cons show ?thesis by (simp add: readEntry_def)
  qed
qed

lemma appliedPairs_unterminated:
  assumes "CHR ''['' \<notin> set g" "unterminated rest"
  shows "appliedPairs [] [] (g @ CHR ''['' # rest) = []"
proof (cases "dropWhile (\<lambda>c. c \<noteq> CHR ''='') rest")
  case Nil
  then have "CHR ''='' \<notin> set rest"
    by (auto simp: dropWhile_eq_Nil_conv)
  from readEntry_no_equals [OF assms(1) this, of "[]" "[]"]
  obtain nm where "readEntry [] [] (g @ CHR ''['' # rest) = (nm, [], CHR 0xFF, [])" by blast
  then show ?thesis by (rule appliedPairs_stop) simp
next
  case (Cons x v)
  let ?k = "takeWhile (\<lambda>c. c \<noteq> CHR ''='') rest"
  have x: "x = CHR ''=''"
    using Cons hd_dropWhile [of "\<lambda>c. c \<noteq> CHR ''=''" rest] by auto
  have rest: "rest = ?k @ CHR ''='' # v"
    using takeWhile_dropWhile_id [of "\<lambda>c. c \<noteq> CHR ''=''" rest] Cons x by simp
  have k: "CHR ''='' \<notin> set ?k"
    by (auto dest: set_takeWhileD)
  have v: "CHR '']'' \<notin> set v"
    using assms(2) Cons by (simp add: unterminated_def)
  from readEntry_no_close [OF assms(1) k v, of "[]" "[]"]
  obtain vl c where "readEntry [] [] (g @ CHR ''['' # ?k @ CHR ''='' # v) = ([] @ ?k, vl, c, [])"
    and "c \<noteq> CHR '']''" by blast
  then have "appliedPairs [] [] (g @ CHR ''['' # ?k @ CHR ''='' # v) = []"
    by (rule appliedPairs_stop)
  with rest show ?thesis by simp
qed

lemma appliedPairs_settingsText:
  "wellFormed es \<Longrightarrow>
   appliedPairs [] [] (settingsText es trailing) = pairsOf es @ appliedPairs [] [] trailing"
proof (induction es)
  case Nil
  then show ?case by simp
next
  case (Cons e es)
  obtain g k v where e: "e = (g, k, v)" by (cases e) auto
  from Cons.prems e have g: "CHR ''['' \<notin> set g" and k: "CHR ''='' \<notin> set k"
    and v: "CHR '']'' \<notin> set v" and es: "wellFormed es"
    by (simp_all add: plain_def)
  show ?case
    using appliedPairs_entry [OF g k v, of "settingsText es trailing"] Cons.IH [OF es]
    by (simp add: e)
qed

section \<open>The settings parser on well-formed and on cut-off streams\<close>

text \<open>
  Claim C1, as amended. For a stream of entries \<open>[k1=v1][k2=v2]...\<close> whose keys and
  values contain none of \<open>[\<close>, \<open>=\<close>, \<open>]\<close>, interleaved with and followed by other text
  that contains no \<open>[\<close>, the parser emits exactly the pairs \<open>(k1,v1),(k2,v2),...\<close> in
  stream order, and the state it leaves is the one obtained by logging and applying each
  pair in that order. The list of entries may be empty (an empty stream emits nothing)
  and keys and values may have length zero.
\<close>

theorem wellformed_stream_pairs_in_order:
  assumes "wellFormed es" and "CHR ''['' \<notin> set trailing"
    and "bytes f = settingsText es trailing"
  shows "appliedPairs [] [] (bytes f) = pairsOf es \<and>
    readSettingsFromFile (Some f) st = foldl applyLogged st (pairsOf es)"
proof -
  have "appliedPairs [] [] (bytes f) = pairsOf es"
    using appliedPairs_settingsText [OF assms(1), of trailing] appliedPairs_no_open [OF assms(2)]
      assms(3) by simp
  then show ?thesis
    by (simp add: readSettingsFromFile_fold)
qed

text \<open>
  Claim C1, an instance: text before, between and after the entries, a key of length
  zero, a value of length zero, and the empty stream.
\<close>

theorem wellformed_stream_pairs_in_order_witness:
  "wellFormed [(''# job '', ''width'', ''384''), ([], [], ''x''), (''; '', ''image'', [])] \<and>
   CHR ''['' \<notin> set ''= end]'' \<and>
   settingsText [(''# job '', ''width'', ''384''), ([], [], ''x''), (''; '', ''image'', [])] ''= end]''
     = ''# job [width=384][=x]; [image=]= end]'' \<and>
   appliedPairs [] [] ''# job [width=384][=x]; [image=]= end]''
     = [(''width'', ''384''), ([], ''x''), (''image'', [])] \<and>
   readSettingsFromFile (Some (SDFile False ''job'' ''# job [width=384][=x]; [image=]= end]'' [])) initial_state
     = foldl applyLogged initial_state [(''width'', ''384''), ([], ''x''), (''image'', [])] \<and>
   appliedPairs [] [] [] = [] \<and>
   readSettingsFromFile (Some (SDFile False ''job'' [] [])) initial_state = initial_state"
  using wellformed_stream_pairs_in_order
      [of "[(''# job '', ''width'', ''384''), ([], [], ''x''), (''; '', ''image'', [])]" "''= end]''"
        "SDFile False ''job'' ''# job [width=384][=x]; [image=]= end]'' []" initial_state]
    wellformed_stream_pairs_in_order
      [of "[]" "[]" "SDFile False ''job'' [] []" initial_state]
  by (simp add: plain_def)

text \<open>
  Claim C1, as stated, fails when the other text holds a \<open>[\<close>: in \<open>[[k=v]\<close> the entry
  \<open>[k=v]\<close> follows the one-character text \<open>[\<close>, and the pair the parser emits has the
  key \<open>[k\<close>, not \<open>k\<close>.
\<close>

theorem stray_open_bracket_counterexample:
  "plain ''k'' \<and> plain ''v'' \<and>
   settingsText [(''['', ''k'', ''v'')] [] = ''[[k=v]'' \<and>
   pairsOf [(''['', ''k'', ''v'')] = [(''k'', ''v'')] \<and>
   appliedPairs [] [] ''[[k=v]'' = [(''[k'', ''v'')] \<and>
   serial (readSettingsFromFile (Some (SDFile False ''job'' ''[[k=v]'' [])) initial_state)
     = [Serial_println ''Applying setting: [k=v'']"
proof -
  have a: "appliedPairs [] [] ''[[k=v]'' = [(''[k'', ''v'')]"
    using appliedPairs_entry [of "[]" "''[k''" "''v''" "[]"] appliedPairs_no_open [of "[]"]
    by simp
  have "serial (readSettingsFromFile (Some (SDFile False ''job'' ''[[k=v]'' [])) initial_state)
     = [Serial_println ''Applying setting: [k=v'']"
    by (simp add: readSettingsFromFile_fold a applySetting_def String_equals_c_str serial_do_def initial_state_def)
  with a show ?thesis
    by (simp add: plain_def)
qed



section \<open>applySetting: dispatch, frame and integer conversion\<close>

text \<open>The ten keys of the dispatch in \<open>applySetting\<close>.\<close>

definition recognizedKeys :: "string list" where
  "recognizedKeys = [''font_size'', ''jobs'', ''line_height'', ''charset'', ''codepage'',
     ''heat_time'', ''image'', ''body_text'', ''width'', ''height'']"



lemma serial_do_simps [simp]:
  "printer (serial_do c st) = printer st"
  "serial (serial_do c st) = serial st @ [c]"
  "configuration (serial_do c st) = configuration st"
  "document (serial_do c st) = document st"
  by (simp_all add: serial_do_def)

lemma printer_do_simps [simp]:
  "printer (printer_do c st) = printer st @ [c]"
  "serial (printer_do c st) = serial st"
  "configuration (printer_do c st) = configuration st"
  "document (printer_do c st) = document st"
  by (simp_all add: printer_do_def)

lemma applySetting_traces [simp]:
  "printer (applySetting k v st) = printer st"
  "serial (applySetting k v st) = serial st"
  by (simp_all add: applySetting_def Let_def)

lemma applySetting_unrecognized:
  "c_str k \<notin> set recognizedKeys \<Longrightarrow> applySetting k v st = st"
  by (simp add: applySetting_def String_equals_c_str recognizedKeys_def)

lemma wrap_zero [simp]: "wrap32 0 = 0" "wrap16 0 = 0"
  by (simp_all add: wrap32_def wrap16_def)



lemma applySetting_dispatch:
  "(c_str k = ''font_size'' \<longrightarrow>
      applySetting k v st = st\<lparr>configuration := (configuration st)\<lparr>fontSize := v\<rparr>\<rparr>) \<and>
   (c_str k = ''jobs'' \<longrightarrow>
      applySetting k v st = st\<lparr>configuration := (configuration st)\<lparr>jobs := v\<rparr>\<rparr>) \<and>
   (c_str k = ''line_height'' \<longrightarrow>
      applySetting k v st
        = st\<lparr>configuration := (configuration st)\<lparr>lineHeight := wrap16 (toInt v)\<rparr>\<rparr>) \<and>
   (c_str k = ''charset'' \<longrightarrow>
      applySetting k v st
        = st\<lparr>configuration := (configuration st)\<lparr>charset := wrap16 (toInt v)\<rparr>\<rparr>) \<and>
   (c_str k = ''codepage'' \<longrightarrow>
      applySetting k v st
        = st\<lparr>configuration := (configuration st)\<lparr>codePage := wrap16 (toInt v)\<rparr>\<rparr>) \<and>
   (c_str k = ''heat_time'' \<longrightarrow>
      applySetting k v st
        = st\<lparr>configuration := (configuration st)\<lparr>heatTime := wrap16 (toInt v)\<rparr>\<rparr>) \<and>
   (c_str k = ''image'' \<longrightarrow>
      applySetting k v st = st\<lparr>document := (document st)\<lparr>image_path := v\<rparr>\<rparr>) \<and>
   (c_str k = ''body_text'' \<longrightarrow>
      applySetting k v st = st\<lparr>document := (document st)\<lparr>bodyText := v\<rparr>\<rparr>) \<and>
   (c_str k = ''width'' \<longrightarrow>
      applySetting k v st
        = st\<lparr>document := (document st)\<lparr>imageWidth := wrap16 (toInt v)\<rparr>\<rparr>) \<and>
   (c_str k = ''height'' \<longrightarrow>
      applySetting k v st
        = st\<lparr>document := (document st)\<lparr>imageHeight := wrap16 (toInt v)\<rparr>\<rparr>)"
  by (simp add: applySetting_def String_equals_c_str)

text \<open>
  Claim C4, as amended. \<open>applySetting\<close> compares the key as \<open>String ==\<close> does, that
  is up to the key's first NUL byte (a key without a NUL byte is compared whole). When
  that text is one of the ten recognized keys, spelled exactly, applying the pair assigns
  the one field the key maps to and nothing else; otherwise it returns the state as it
  was: Configuration, Job Descriptor and both traces. The ten keys are distinct, so no
  key reaches a field in both if-chains. The function is total, so there is no error to
  raise.
\<close>

theorem applySetting_assigns_one_field:
  "(c_str k = ''font_size'' \<longrightarrow>
      applySetting k v st = st\<lparr>configuration := (configuration st)\<lparr>fontSize := v\<rparr>\<rparr>) \<and>
   (c_str k = ''jobs'' \<longrightarrow>
      applySetting k v st = st\<lparr>configuration := (configuration st)\<lparr>jobs := v\<rparr>\<rparr>) \<and>
   (c_str k = ''line_height'' \<longrightarrow>
      applySetting k v st
        = st\<lparr>configuration := (configuration st)\<lparr>lineHeight := wrap16 (toInt v)\<rparr>\<rparr>) \<and>
   (c_str k = ''charset'' \<longrightarrow>
      applySetting k v st
        = st\<lparr>configuration := (configuration st)\<lparr>charset := wrap16 (toInt v)\<rparr>\<rparr>) \<and>
   (c_str k = ''codepage'' \<longrightarrow>
      applySetting k v st
        = st\<lparr>configuration := (configuration st)\<lparr>codePage := wrap16 (toInt v)\<rparr>\<rparr>) \<and>
   (c_str k = ''heat_time'' \<longrightarrow>
      applySetting k v st
        = st\<lparr>configuration := (configuration st)\<lparr>heatTime := wrap16 (toInt v)\<rparr>\<rparr>) \<and>
   (c_str k = ''image'' \<longrightarrow>
      applySetting k v st = st\<lparr>document := (document st)\<lparr>image_path := v\<rparr>\<rparr>) \<and>
   (c_str k = ''body_text'' \<longrightarrow>
      applySetting k v st = st\<lparr>document := (document st)\<lparr>bodyText := v\<rparr>\<rparr>) \<and>
   (c_str k = ''width'' \<longrightarrow>
      applySetting k v st
        = st\<lparr>document := (document st)\<lparr>imageWidth := wrap16 (toInt v)\<rparr>\<rparr>) \<and>
   (c_str k = ''height'' \<longrightarrow>
      applySetting k v st
        = st\<lparr>document := (document st)\<lparr>imageHeight := wrap16 (toInt v)\<rparr>\<rparr>) \<and>
   (c_str k \<notin> set recognizedKeys \<longrightarrow> applySetting k v st = st) \<and>
   (CHR 0x00 \<notin> set k \<longrightarrow> c_str k = k) \<and>
   distinct recognizedKeys \<and> length recognizedKeys = 10"
proof -
  have keys: "distinct recognizedKeys \<and> length recognizedKeys = 10"
    by (simp add: recognizedKeys_def)
  have other: "c_str k \<notin> set recognizedKeys \<longrightarrow> applySetting k v st = st"
    by (simp add: applySetting_unrecognized)
  have whole: "CHR 0x00 \<notin> set k \<longrightarrow> c_str k = k"
    by (simp add: c_str_no_nul)
  from applySetting_dispatch [of k v st] keys other whole show ?thesis
    by blast
qed

text \<open>
  Claim C4, instances: the keys are case-sensitive, so \<open>Width\<close> is not recognized and
  leaves the state alone; \<open>width\<close> assigns \<open>imageWidth\<close> only; and so does a key that
  goes on after a NUL byte, since the comparison stops there.
\<close>

theorem applySetting_assigns_one_field_witness:
  "c_str ''Width'' \<notin> set recognizedKeys \<and>
   applySetting ''Width'' ''384'' initial_state = initial_state \<and>
   CHR 0x00 \<notin> set ''width'' \<and> c_str ''width'' = ''width'' \<and>
   applySetting ''width'' ''384'' initial_state
     = initial_state\<lparr>document := (document initial_state)\<lparr>imageWidth := 384\<rparr>\<rparr> \<and>
   c_str (''width'' @ [CHR 0x00] @ ''x'') = ''width'' \<and>
   applySetting (''width'' @ [CHR 0x00] @ ''x'') ''384'' initial_state
     = initial_state\<lparr>document := (document initial_state)\<lparr>imageWidth := 384\<rparr>\<rparr>"
proof -
  have a: "toInt ''384'' = 384"
    by (simp add: toInt_def isspace_def isdigit_def wrap32_def)
  have b: "c_str ''Width'' \<notin> set recognizedKeys"
    by (simp add: recognizedKeys_def)
  have c: "c_str ''width'' = ''width''" "c_str (''width'' @ [CHR 0x00] @ ''x'') = ''width''"
    by simp_all
  from applySetting_assigns_one_field [of "''Width''" "''384''" initial_state] b
  have d: "applySetting ''Width'' ''384'' initial_state = initial_state"
    by blast
  from applySetting_assigns_one_field [of "''width''" "''384''" initial_state] c(1)
  have e: "applySetting ''width'' ''384'' initial_state
     = initial_state\<lparr>document := (document initial_state)\<lparr>imageWidth := wrap16 (toInt ''384'')\<rparr>\<rparr>"
    by blast
  from applySetting_assigns_one_field [of "''width'' @ [CHR 0x00] @ ''x''" "''384''" initial_state]
    c(2)
  have f: "applySetting (''width'' @ [CHR 0x00] @ ''x'') ''384'' initial_state
     = initial_state\<lparr>document := (document initial_state)\<lparr>imageWidth := wrap16 (toInt ''384'')\<rparr>\<rparr>"
    by blast
  from b c d e f show ?thesis
    by (simp add: a wrap16_def)
qed

text \<open>
  Claim C4, as stated, fails for a key that is none of the ten but equals one of them up
  to a NUL byte: the key \<open>width\<close>, NUL, \<open>x\<close> is not a recognized key, yet applying it
  with the value \<open>5\<close> assigns \<open>imageWidth\<close>.
\<close>

theorem nul_key_dispatched_counterexample:
  "''width'' @ [CHR 0x00] @ ''x'' \<notin> set recognizedKeys \<and>
   imageWidth (document initial_state) = 0 \<and>
   imageWidth (document (applySetting (''width'' @ [CHR 0x00] @ ''x'') ''5'' initial_state)) = 5"
proof -
  have "toInt ''5'' = 5"
    by (simp add: toInt_def isspace_def isdigit_def wrap32_def)
  then show ?thesis
    by (simp add: recognizedKeys_def initial_state_def applySetting_def String_equals_c_str
        wrap16_def)
qed




section \<open>Configuration defaults and the global settings file\<close>

text \<open>The pairs the parser applies from the global settings file; none when it is missing.\<close>

definition globalOverrides :: "sdcard \<Rightarrow> (string \<times> string) list" where
  "globalOverrides sd =
     (if sd_exists sd SETTINGS_FILE then
        (case sd_open sd SETTINGS_FILE of
           None \<Rightarrow> []
         | Some f \<Rightarrow> appliedPairs [] [] (bytes f))
      else [])"

text \<open>
  A list of pairs overrides the field of a key when one of its keys equals that key as
  \<open>applySetting\<close> compares them.
\<close>

definition overrides :: "string \<Rightarrow> (string \<times> string) list \<Rightarrow> bool" where
  "overrides K ps = list_ex (\<lambda>p. String_equals (fst p) K) ps"

lemma foldl_applyLogged_keeps:
  assumes "\<And>k v s. \<not> String_equals k K \<Longrightarrow> f (applySetting k v s) = f s"
    and "\<And>c s. f (serial_do c s) = f s"
    and "\<not> overrides K ps"
  shows "f (foldl applyLogged st ps) = f st"
  using assms(3)
proof (induction ps arbitrary: st)
  case Nil
  then show ?case by simp
next
  case (Cons p ps)
  obtain k v where p: "p = (k, v)" by (cases p) auto
  with Cons.prems have "\<not> String_equals k K" and "\<not> overrides K ps"
    by (auto simp: overrides_def)
  then show ?case
    using Cons.IH [of "applyLogged st (k, v)"] assms(1) [of k] assms(2)
    by (simp add: p)
qed

lemma foldl_applyLogged_times:
  "dotPrintTime (configuration (foldl applyLogged st ps)) = dotPrintTime (configuration st) \<and>
   dotFeedTime (configuration (foldl applyLogged st ps)) = dotFeedTime (configuration st)"
proof (induction ps arbitrary: st)
  case Nil
  then show ?case by simp
next
  case (Cons p ps)
  obtain k v where p: "p = (k, v)" by (cases p) auto
  show ?case
    using Cons.IH [of "applyLogged st (k, v)"]
    by (simp add: p applySetting_def String_equals_c_str Let_def)
qed

lemma loadSettings_fold:
  "configuration (loadSettings sd st) =
   configuration
     (foldl applyLogged (st\<lparr>configuration := Settings_init (configuration st)\<rparr>) (globalOverrides sd))"
proof (cases "sd_open sd SETTINGS_FILE")
  case None
  then show ?thesis
    by (simp add: loadSettings_def readSDSettings_def globalOverrides_def readSettingsFromFile_def)
next
  case (Some f)
  then show ?thesis
    by (simp add: loadSettings_def readSDSettings_def globalOverrides_def readSettingsFromFile_fold)
qed

text \<open>
  Claim C5. \<open>Settings::init\<close> assigns every field its hard-coded default, and the
  configuration with which \<open>setup\<close> goes on is the result of applying the pairs of the
  global settings file, in order, to that initialised record. So when the file is missing
  the configuration is the defaults, and whatever the file holds (cut-off entries and
  unknown keys included) every field that no applied pair overrides is at its default: a
  pair overrides a field when its key equals the field's key as \<open>applySetting\<close>
  compares them, up to the key's first NUL byte. The two timing fields have no key and are
  always at their defaults.
\<close>

theorem configuration_defaults_before_overrides:
  "charset (Settings_init c) = CHARSET_USA \<and> codePage (Settings_init c) = CODEPAGE_CP437 \<and>
   lineHeight (Settings_init c) = 28 \<and> heatTime (Settings_init c) = 120 \<and>
   dotPrintTime (Settings_init c) = 30000 \<and> dotFeedTime (Settings_init c) = 2100 \<and>
   fontSize (Settings_init c) = ''S'' \<and> jobs (Settings_init c) = ''/jobs/'' \<and>
   configuration (loadSettings sd st) =
     configuration
       (foldl applyLogged (st\<lparr>configuration := Settings_init (configuration st)\<rparr>)
          (globalOverrides sd)) \<and>
   (\<not> sd_exists sd SETTINGS_FILE \<longrightarrow>
      configuration (loadSettings sd st) = Settings_init (configuration st)) \<and>
   (\<not> overrides ''charset'' (globalOverrides sd) \<longrightarrow>
      charset (configuration (loadSettings sd st)) = CHARSET_USA) \<and>
   (\<not> overrides ''codepage'' (globalOverrides sd) \<longrightarrow>
      codePage (configuration (loadSettings sd st)) = CODEPAGE_CP437) \<and>
   (\<not> overrides ''line_height'' (globalOverrides sd) \<longrightarrow>
      lineHeight (configuration (loadSettings sd st)) = 28) \<and>
   (\<not> overrides ''heat_time'' (globalOverrides sd) \<longrightarrow>
      heatTime (configuration (loadSettings sd st)) = 120) \<and>
   (\<not> overrides ''font_size'' (globalOverrides sd) \<longrightarrow>
      fontSize (configuration (loadSettings sd st)) = ''S'') \<and>
   (\<not> overrides ''jobs'' (globalOverrides sd) \<longrightarrow>
      jobs (configuration (loadSettings sd st)) = ''/jobs/'') \<and>
   dotPrintTime (configuration (loadSettings sd st)) = 30000 \<and>
   dotFeedTime (configuration (loadSettings sd st)) = 2100"
proof -
  let ?st1 = "st\<lparr>configuration := Settings_init (configuration st)\<rparr>"
  let ?ps = "globalOverrides sd"
  have init: "charset (Settings_init c) = CHARSET_USA \<and> codePage (Settings_init c) = CODEPAGE_CP437 \<and>
   lineHeight (Settings_init c) = 28 \<and> heatTime (Settings_init c) = 120 \<and>
   dotPrintTime (Settings_init c) = 30000 \<and> dotFeedTime (Settings_init c) = 2100 \<and>
   fontSize (Settings_init c) = ''S'' \<and> jobs (Settings_init c) = ''/jobs/''" for c
    by (simp add: Settings_init_def)
  have missing: "\<not> sd_exists sd SETTINGS_FILE \<Longrightarrow>
      configuration (loadSettings sd st) = Settings_init (configuration st)"
    by (simp add: loadSettings_def readSDSettings_def)
  have a: "\<not> overrides ''charset'' ?ps \<Longrightarrow>
      charset (configuration (foldl applyLogged ?st1 ?ps)) = charset (configuration ?st1)"
    by (rule foldl_applyLogged_keeps [where K = "''charset''"])
      (simp_all add: applySetting_def String_equals_c_str Let_def)
  have b: "\<not> overrides ''codepage'' ?ps \<Longrightarrow>
      codePage (configuration (foldl applyLogged ?st1 ?ps)) = codePage (configuration ?st1)"
    by (rule foldl_applyLogged_keeps [where K = "''codepage''"])
      (simp_all add: applySetting_def String_equals_c_str Let_def)
  have c: "\<not> overrides ''line_height'' ?ps \<Longrightarrow>
      lineHeight (configuration (foldl applyLogged ?st1 ?ps)) = lineHeight (configuration ?st1)"
    by (rule foldl_applyLogged_keeps [where K = "''line_height''"])
      (simp_all add: applySetting_def String_equals_c_str Let_def)
  have d: "\<not> overrides ''heat_time'' ?ps \<Longrightarrow>
      heatTime (configuration (foldl applyLogged ?st1 ?ps)) = heatTime (configuration ?st1)"
    by (rule foldl_applyLogged_keeps [where K = "''heat_time''"])
      (simp_all add: applySetting_def String_equals_c_str Let_def)
  have e: "\<not> overrides ''font_size'' ?ps \<Longrightarrow>
      fontSize (configuration (foldl applyLogged ?st1 ?ps)) = fontSize (configuration ?st1)"
    by (rule foldl_applyLogged_keeps [where K = "''font_size''"])
      (simp_all add: applySetting_def String_equals_c_str Let_def)
  have f: "\<not> overrides ''jobs'' ?ps \<Longrightarrow>
      jobs (configuration (foldl applyLogged ?st1 ?ps)) = jobs (configuration ?st1)"
    by (rule foldl_applyLogged_keeps [where K = "''jobs''"])
      (simp_all add: applySetting_def String_equals_c_str Let_def)
  show ?thesis
    using init [of c] init [of "configuration st"] missing a b c d e f
      foldl_applyLogged_times [of ?st1 ?ps]
    by (simp add: loadSettings_fold)
qed

text \<open>
  Three cards: one without the global settings file, one whose file ends in a cut-off
  entry, and one whose file holds a key that goes on after a NUL byte.
\<close>

definition card_without_settings :: sdcard where
  "card_without_settings = \<lparr>sd_begin = True, sd_exists = (\<lambda>p. False), sd_open = (\<lambda>p. None)\<rparr>"

definition card_with_cut_off_settings :: sdcard where
  "card_with_cut_off_settings =
     \<lparr>sd_begin = True,
      sd_exists = (\<lambda>p. p = ''/settings.txt''),
      sd_open = (\<lambda>p. if p = ''/settings.txt''
         then Some (SDFile False ''settings.txt'' ''[line_height=32] [colour=red] [heat_time=15'' [])
         else None)\<rparr>"

definition card_with_nul_key :: sdcard where
  "card_with_nul_key =
     \<lparr>sd_begin = True,
      sd_exists = (\<lambda>p. p = ''/settings.txt''),
      sd_open = (\<lambda>p. if p = ''/settings.txt''
         then Some (SDFile False ''settings.txt'' (''[heat_time'' @ [CHR 0x00] @ ''x=5]'') [])
         else None)\<rparr>"

lemma globalOverrides_cut_off:
  "globalOverrides card_with_cut_off_settings = [(''line_height'', ''32''), (''colour'', ''red'')]"
proof -
  have "appliedPairs [] [] ''[line_height=32] [colour=red] [heat_time=15''
      = [(''line_height'', ''32''), (''colour'', ''red'')]"
    using appliedPairs_entry [of "[]" "''line_height''" "''32''" "'' [colour=red] [heat_time=15''"]
      appliedPairs_entry [of "'' ''" "''colour''" "''red''" "'' [heat_time=15''"]
      appliedPairs_unterminated [of "'' ''" "''heat_time=15''"]
    by (simp add: unterminated_def)
  then show ?thesis
    by (simp add: globalOverrides_def card_with_cut_off_settings_def SETTINGS_FILE_def)
qed

lemma globalOverrides_nul_key:
  "globalOverrides card_with_nul_key = [(''heat_time'' @ [CHR 0x00] @ ''x'', ''5'')]"
proof -
  have "appliedPairs [] [] (''[heat_time'' @ [CHR 0x00] @ ''x=5]'')
      = [(''heat_time'' @ [CHR 0x00] @ ''x'', ''5'')]"
    using appliedPairs_entry [of "[]" "''heat_time'' @ [CHR 0x00] @ ''x''" "''5''" "[]"]
      appliedPairs_no_open [of "[]"]
    by simp
  then show ?thesis
    by (simp add: globalOverrides_def card_with_nul_key_def SETTINGS_FILE_def)
qed

text \<open>
  Claim C5, instances: a card without the global settings file; a card whose file
  overrides the line height, names an unknown key and ends in a cut-off entry; and a card
  whose file overrides the heat time through a key that goes on after a NUL byte, the line
  height staying at its default.
\<close>

theorem configuration_defaults_before_overrides_witness:
  "\<not> sd_exists card_without_settings SETTINGS_FILE \<and>
   configuration (loadSettings card_without_settings initial_state)
     = Settings_init (configuration initial_state) \<and>
   \<not> overrides ''heat_time'' (globalOverrides card_with_cut_off_settings) \<and>
   \<not> overrides ''font_size'' (globalOverrides card_with_cut_off_settings) \<and>
   heatTime (configuration (loadSettings card_with_cut_off_settings initial_state)) = 120 \<and>
   fontSize (configuration (loadSettings card_with_cut_off_settings initial_state)) = ''S'' \<and>
   lineHeight (configuration (loadSettings card_with_cut_off_settings initial_state)) = 32 \<and>
   overrides ''heat_time'' (globalOverrides card_with_nul_key) \<and>
   heatTime (configuration (loadSettings card_with_nul_key initial_state)) = 5 \<and>
   \<not> overrides ''line_height'' (globalOverrides card_with_nul_key) \<and>
   lineHeight (configuration (loadSettings card_with_nul_key initial_state)) = 28"
proof -
  note none = configuration_defaults_before_overrides [of "configuration initial_state"
      card_without_settings initial_state]
  note cut = configuration_defaults_before_overrides [of "configuration initial_state"
      card_with_cut_off_settings initial_state]
  note nul = configuration_defaults_before_overrides [of "configuration initial_state"
      card_with_nul_key initial_state]
  have a: "\<not> sd_exists card_without_settings SETTINGS_FILE"
    by (simp add: card_without_settings_def)
  with none have b: "configuration (loadSettings card_without_settings initial_state)
     = Settings_init (configuration initial_state)"
    by blast
  have c: "\<not> overrides ''heat_time'' (globalOverrides card_with_cut_off_settings)"
    and d: "\<not> overrides ''font_size'' (globalOverrides card_with_cut_off_settings)"
    by (simp_all add: globalOverrides_cut_off overrides_def String_equals_c_str)
  from cut c
  have e: "heatTime (configuration (loadSettings card_with_cut_off_settings initial_state)) = 120"
    by blast
  from cut d
  have f: "fontSize (configuration (loadSettings card_with_cut_off_settings initial_state)) = ''S''"
    by blast
  have n: "toInt ''32'' = 32" "toInt ''5'' = 5"
    by (simp_all add: toInt_def isspace_def isdigit_def wrap32_def)
  from cut
  have "configuration (loadSettings card_with_cut_off_settings initial_state) =
     configuration
       (foldl applyLogged
          (initial_state\<lparr>configuration := Settings_init (configuration initial_state)\<rparr>)
          (globalOverrides card_with_cut_off_settings))"
    by blast
  then
  have g: "lineHeight (configuration (loadSettings card_with_cut_off_settings initial_state)) = 32"
    by (simp add: globalOverrides_cut_off applySetting_def String_equals_c_str wrap16_def n)
  have h: "overrides ''heat_time'' (globalOverrides card_with_nul_key)"
    and i: "\<not> overrides ''line_height'' (globalOverrides card_with_nul_key)"
    by (simp_all add: globalOverrides_nul_key overrides_def String_equals_c_str)
  from nul
  have "configuration (loadSettings card_with_nul_key initial_state) =
     configuration
       (foldl applyLogged
          (initial_state\<lparr>configuration := Settings_init (configuration initial_state)\<rparr>)
          (globalOverrides card_with_nul_key))"
    by blast
  then
  have j: "heatTime (configuration (loadSettings card_with_nul_key initial_state)) = 5"
    by (simp add: globalOverrides_nul_key applySetting_def String_equals_c_str wrap16_def n)
  from nul i
  have k: "lineHeight (configuration (loadSettings card_with_nul_key initial_state)) = 28"
    by blast
  from a b c d e f g h i j k show ?thesis by simp
qed

section \<open>The text step\<close>

text \<open>
  The lines the loop \<open>printLines\<close> prints from what is left of a stream: the same loop,
  collecting the lines.
\<close>

function bodyLines :: "string \<Rightarrow> string list" where
  "bodyLines s =
     (if available s then
        (case readStringUntil (CHR 0x0A) s of (line, s') \<Rightarrow> line # bodyLines s')
      else [])"
  by pat_completeness auto
termination
  by (relation "measure length")
     (auto simp: available_def dest!: sym [of _ "readStringUntil _ _"] readStringUntil_shorter)

declare bodyLines.simps [simp del]

text \<open>The printer calls of the text step for a title, a size character and body lines.\<close>

definition textCalls :: "string \<Rightarrow> char \<Rightarrow> string list \<Rightarrow> printer_call list" where
  "textCalls title sz ls =
     [Feed 1, BoldOn, Justify (CHR ''C''), SetSize (CHR ''M''), Println title,
      SetSize sz, Justify (CHR ''L''), BoldOff] @ map Println ls"

lemma printLines_trace:
  "printLines s st = st\<lparr>printer := printer st @ map Println (bodyLines s)\<rparr>"
proof (induction s st rule: printLines.induct)
  case (1 s st)
  show ?case
  proof (cases "available s")
    case False
    then show ?thesis
      by (subst printLines.simps, subst bodyLines.simps) simp
  next
    case True
    obtain line s' where r: "readStringUntil (CHR 0x0A) s = (line, s')"
      by (cases "readStringUntil (CHR 0x0A) s") auto
    from True r "1.IH" [OF True r [symmetric]] show ?thesis
      by (subst printLines.simps, subst bodyLines.simps) (simp add: printer_do_def)
  qed
qed

lemma printText_opened:
  assumes "sd_exists sd filename" and "sd_open sd filename = Some dataFile"
  shows "printText sd filename st =
    (True,
     st\<lparr>printer := printer st @
          textCalls (fst (readStringUntil (CHR 0x0A) (bytes dataFile)))
            (charAt (fontSize (configuration st)) 0)
            (bodyLines (snd (readStringUntil (CHR 0x0A) (bytes dataFile)))),
        serial := serial st @ [Serial_println (''Printing text from file: '' @ filename)]\<rparr>)"
  using assms
  by (simp add: printText_def Let_def printLines_trace textCalls_def printer_do_def serial_do_def
      split: prod.splits)

lemma printText_skipped:
  "\<not> sd_exists sd filename \<or> sd_open sd filename = None \<Longrightarrow> printText sd filename st = (False, st)"
  by (auto simp: printText_def)

lemma readStringUntil_one_line:
  "t \<notin> set l \<Longrightarrow> readStringUntil t l = (l, []) \<and> readStringUntil t (l @ [t]) = (l, [])"
  by (induction l) auto

lemma bodyLines_Nil: "bodyLines [] = []"
  by (subst bodyLines.simps) (simp add: available_def)

text \<open>
  Claim C10. For every body-text file that exists and opens, the text step returns true
  and prints the title line (bold, centred, size M) before it looks whether anything is
  left: whatever the file holds, the calls are the feed, the title sequence with the text
  up to the first line feed, the restore sequence, and one \<open>println\<close> per remaining
  line. A file that is empty or holds exactly one line (with or without its line feed)
  gives that one title line, empty for the empty file, and no body line.
\<close>

theorem printText_title_unconditional:
  assumes "sd_exists sd filename" and "sd_open sd filename = Some dataFile"
  shows "fst (printText sd filename st) = True \<and>
    printer (snd (printText sd filename st)) =
      printer st @
        [Feed 1, BoldOn, Justify (CHR ''C''), SetSize (CHR ''M''),
         Println (fst (readStringUntil (CHR 0x0A) (bytes dataFile))),
         SetSize (charAt (fontSize (configuration st)) 0), Justify (CHR ''L''), BoldOff] @
        map Println (bodyLines (snd (readStringUntil (CHR 0x0A) (bytes dataFile)))) \<and>
    (CHR 0x0A \<notin> set l \<and> (bytes dataFile = l \<or> bytes dataFile = l @ [CHR 0x0A]) \<longrightarrow>
       printer (snd (printText sd filename st)) =
         printer st @
           [Feed 1, BoldOn, Justify (CHR ''C''), SetSize (CHR ''M''), Println l,
            SetSize (charAt (fontSize (configuration st)) 0), Justify (CHR ''L''), BoldOff])"
  using readStringUntil_one_line [of "CHR 0x0A" l]
  by (auto simp: printText_opened [OF assms] textCalls_def bodyLines_Nil)

text \<open>A card holding one text file with the given content.\<close>

definition card_with_text :: "string \<Rightarrow> sdcard" where
  "card_with_text content =
     \<lparr>sd_begin = True,
      sd_exists = (\<lambda>p. p = ''/txt1.txt''),
      sd_open = (\<lambda>p. if p = ''/txt1.txt'' then Some (SDFile False ''txt1.txt'' content [])
         else None)\<rparr>"

text \<open>
  Claim C10, instances: an empty file, a file of one line without a line feed and a file
  of one line with it; each gives the title sequence alone.
\<close>

theorem printText_title_unconditional_witness:
  "sd_exists (card_with_text []) ''/txt1.txt'' \<and>
   sd_open (card_with_text []) ''/txt1.txt'' = Some (SDFile False ''txt1.txt'' [] []) \<and>
   CHR 0x0A \<notin> set ''Hello'' \<and>
   fst (printText (card_with_text []) ''/txt1.txt'' initial_state) = True \<and>
   printer (snd (printText (card_with_text []) ''/txt1.txt'' initial_state)) =
     [Feed 1, BoldOn, Justify (CHR ''C''), SetSize (CHR ''M''), Println [],
      SetSize (CHR 0x00), Justify (CHR ''L''), BoldOff] \<and>
   printer (snd (printText (card_with_text ''Hello'') ''/txt1.txt'' initial_state)) =
     [Feed 1, BoldOn, Justify (CHR ''C''), SetSize (CHR ''M''), Println ''Hello'',
      SetSize (CHR 0x00), Justify (CHR ''L''), BoldOff] \<and>
   printer (snd (printText (card_with_text (''Hello'' @ [CHR 0x0A])) ''/txt1.txt'' initial_state)) =
     [Feed 1, BoldOn, Justify (CHR ''C''), SetSize (CHR ''M''), Println ''Hello'',
      SetSize (CHR 0x00), Justify (CHR ''L''), BoldOff]"
proof -
  have a: "sd_exists (card_with_text c) ''/txt1.txt''"
    and b: "sd_open (card_with_text c) ''/txt1.txt'' = Some (SDFile False ''txt1.txt'' c [])" for c
    by (simp_all add: card_with_text_def)
  have c: "charAt (fontSize (configuration initial_state)) 0 = CHR 0x00"
    by (simp add: charAt_def initial_state_def)
  have d: "printer initial_state = []"
    by (simp add: initial_state_def)
  from printText_title_unconditional [OF a b, of "[]" initial_state "[]"]
    printText_title_unconditional [OF a b, of "''Hello''" initial_state "''Hello''"]
    printText_title_unconditional [OF a b, of "''Hello'' @ [CHR 0x0A]" initial_state "''Hello''"]
  show ?thesis
    using a [of "[]"] b [of "[]"] by (simp add: c d bodyLines_Nil)
qed

section \<open>The printer trace of the pipeline\<close>

text \<open>The calls \<open>setPrinterParameters\<close> makes for a configuration.\<close>

definition paramCalls :: "Settings \<Rightarrow> printer_call list" where
  "paramCalls c =
     [Begin (heatTime c), SetSize (charAt (fontSize c) 0), SetLineHeight (lineHeight c),
      SetCharset (charset c), SetCodePage (codePage c)]"

text \<open>
  A driver makes progress when every call on a stream that is not empty returns and
  leaves fewer bytes unread.
\<close>

definition progressive :: "bitmap_driver \<Rightarrow> bool" where
  "progressive drv = (\<forall>w h s. s \<noteq> [] \<longrightarrow> (\<exists>s'. drv w h s = Some s' \<and> length s' < length s))"

text \<open>The jobs of a directory listing run one after the other.\<close>

fun runDocuments :: "bitmap_driver \<Rightarrow> sdcard \<Rightarrow> sdfile list \<Rightarrow> state \<Rightarrow> state option" where
  "runDocuments drv sd [] st = Some st"
| "runDocuments drv sd (e # es) st =
     (case printDocument drv sd e st of None \<Rightarrow> None | Some st' \<Rightarrow> runDocuments drv sd es st')"

lemma setPrinterParameters_eq:
  "setPrinterParameters st = st\<lparr>printer := printer st @ paramCalls (configuration st)\<rparr>"
  by (simp add: setPrinterParameters_def Let_def printer_do_def paramCalls_def)

lemma foldl_applyLogged_printer [simp]: "printer (foldl applyLogged st ps) = printer st"
  by (induction ps arbitrary: st) auto

lemma readSettingsFromFile_printer [simp]: "printer (readSettingsFromFile f st) = printer st"
  by (cases f) (simp_all add: readSettingsFromFile_def readSettingsLoop_fold)

lemma printBitmaps_Nil: "printBitmaps drv w h [] st = Some st"
  by (subst printBitmaps.simps) (simp add: available_def)

lemma printBitmaps_Cons:
  "s \<noteq> [] \<Longrightarrow>
   printBitmaps drv w h s st =
     (case drv w h s of
        None \<Rightarrow> None
      | Some s' \<Rightarrow> printBitmaps drv w h s' (printer_do (PrintBitmap w h) st))"
  by (subst printBitmaps.simps) (simp add: available_def)

lemma printBitmaps_calls:
  assumes "printBitmaps drv w h s st = Some st'"
  shows "\<exists>n. st' = st\<lparr>printer := printer st @ replicate n (PrintBitmap w h)\<rparr> \<and>
     (\<forall>st2. printBitmaps drv w h s st2
        = Some (st2\<lparr>printer := printer st2 @ replicate n (PrintBitmap w h)\<rparr>))"
proof (rule printBitmaps.raw_induct [where P = "\<lambda>drv w h s st st'.
    \<exists>n. st' = st\<lparr>printer := printer st @ replicate n (PrintBitmap w h)\<rparr> \<and>
     (\<forall>st2. printBitmaps drv w h s st2
        = Some (st2\<lparr>printer := printer st2 @ replicate n (PrintBitmap w h)\<rparr>))", OF _ assms])
  fix f :: "bitmap_driver \<Rightarrow> int \<Rightarrow> int \<Rightarrow> string \<Rightarrow> state \<Rightarrow> state option"
    and drv w h s st st'
  assume IH: "\<And>drv w h s st st'. f drv w h s st = Some st' \<Longrightarrow>
    \<exists>n. st' = st\<lparr>printer := printer st @ replicate n (PrintBitmap w h)\<rparr> \<and>
     (\<forall>st2. printBitmaps drv w h s st2
        = Some (st2\<lparr>printer := printer st2 @ replicate n (PrintBitmap w h)\<rparr>))"
    and prems: "(if available s
      then case drv w h s of None \<Rightarrow> None
           | Some s' \<Rightarrow> f drv w h s' (printer_do (PrintBitmap w h) st)
      else Some st) = Some st'"
  show "\<exists>n. st' = st\<lparr>printer := printer st @ replicate n (PrintBitmap w h)\<rparr> \<and>
     (\<forall>st2. printBitmaps drv w h s st2
        = Some (st2\<lparr>printer := printer st2 @ replicate n (PrintBitmap w h)\<rparr>))"
  proof (cases "s = []")
    case True
    with prems have "st' = st" by (simp add: available_def)
    then have "st' = st\<lparr>printer := printer st @ replicate 0 (PrintBitmap w h)\<rparr>" by simp
    moreover have "\<forall>st2. printBitmaps drv w h s st2
        = Some (st2\<lparr>printer := printer st2 @ replicate 0 (PrintBitmap w h)\<rparr>)"
      using True by (simp add: printBitmaps_Nil)
    ultimately show ?thesis by blast
  next
    case False
    with prems obtain s' where d: "drv w h s = Some s'"
      and r: "f drv w h s' (printer_do (PrintBitmap w h) st) = Some st'"
      by (auto simp: available_def split: option.splits)
    from IH [OF r] obtain n
      where a: "st' = (printer_do (PrintBitmap w h) st)
          \<lparr>printer := printer (printer_do (PrintBitmap w h) st) @ replicate n (PrintBitmap w h)\<rparr>"
        and b: "\<And>st2. printBitmaps drv w h s' st2
          = Some (st2\<lparr>printer := printer st2 @ replicate n (PrintBitmap w h)\<rparr>)"
      by blast
    have "st' = st\<lparr>printer := printer st @ replicate (Suc n) (PrintBitmap w h)\<rparr>"
      using a by (simp add: printer_do_def)
    moreover have "\<forall>st2. printBitmaps drv w h s st2
        = Some (st2\<lparr>printer := printer st2 @ replicate (Suc n) (PrintBitmap w h)\<rparr>)"
      using False d b by (simp add: printBitmaps_Cons printer_do_def)
    ultimately show ?thesis by blast
  qed
qed

lemma printBitmaps_total:
  assumes "progressive drv"
  shows "\<exists>st'. printBitmaps drv w h s st = Some st'"
proof (induction s arbitrary: st rule: measure_induct_rule [where f = length])
  case (less s)
  show ?case
  proof (cases "s = []")
    case True
    then show ?thesis by (simp add: printBitmaps_Nil)
  next
    case False
    with assms obtain s' where d: "drv w h s = Some s'" and l: "length s' < length s"
      unfolding progressive_def by blast
    from less [OF l, of "printer_do (PrintBitmap w h) st"] False d show ?thesis
      by (simp add: printBitmaps_Cons)
  qed
qed

lemma printImage_result:
  assumes "printImage drv sd filename w h st = Some (b, st')"
  shows "\<exists>calls. st' = st\<lparr>printer := printer st @ calls,
        serial := serial st @
          (if b then [Serial_println (''Printing image from file: '' @ filename)] else [])\<rparr> \<and>
      set calls \<subseteq> {Feed 1, PrintBitmap w h}"
proof (cases "sd_exists sd filename \<and> sd_open sd filename \<noteq> None")
  case False
  with assms have "b = False \<and> st' = st"
    by (auto simp: printImage_def split: if_splits option.splits)
  then have "st' = st\<lparr>printer := printer st @ [],
        serial := serial st @
          (if b then [Serial_println (''Printing image from file: '' @ filename)] else [])\<rparr>"
    by simp
  then show ?thesis by (intro exI [of _ "[]"]) simp
next
  case True
  then obtain imageFile where o: "sd_open sd filename = Some imageFile" by auto
  let ?st2 = "printer_do (Feed 1)
    (serial_do (Serial_println (''Printing image from file: '' @ filename)) st)"
  from assms True o have b: "b = True"
    and p: "printBitmaps drv w h (bytes imageFile) ?st2 = Some st'"
    by (auto simp: printImage_def Let_def split: option.splits)
  from printBitmaps_calls [OF p] obtain n
    where "st' = ?st2\<lparr>printer := printer ?st2 @ replicate n (PrintBitmap w h)\<rparr>" by blast
  then have "st' = st\<lparr>printer := printer st @ (Feed 1 # replicate n (PrintBitmap w h)),
        serial := serial st @
          (if b then [Serial_println (''Printing image from file: '' @ filename)] else [])\<rparr>"
    using b by (simp add: printer_do_def serial_do_def)
  then show ?thesis by (intro exI [of _ "Feed 1 # replicate n (PrintBitmap w h)"]) auto
qed

lemma printImage_total:
  assumes "progressive drv"
  shows "\<exists>r. printImage drv sd filename w h st = Some r"
proof (cases "sd_exists sd filename \<and> sd_open sd filename \<noteq> None")
  case False
  then show ?thesis by (auto simp: printImage_def split: option.splits)
next
  case True
  then obtain imageFile where o: "sd_open sd filename = Some imageFile" by auto
  let ?st2 = "printer_do (Feed 1)
    (serial_do (Serial_println (''Printing image from file: '' @ filename)) st)"
  from printBitmaps_total [OF assms, of w h "bytes imageFile" ?st2]
  obtain st' where "printBitmaps drv w h (bytes imageFile) ?st2 = Some st'" by blast
  with True o have "printImage drv sd filename w h st = Some (True, st')"
    by (simp add: printImage_def Let_def)
  then show ?thesis by blast
qed

lemma printText_printer:
  "\<exists>calls. printer (snd (printText sd filename st)) = printer st @ calls \<and> Feed 2 \<notin> set calls"
proof (cases "sd_exists sd filename \<and> sd_open sd filename \<noteq> None")
  case False
  then have "printText sd filename st = (False, st)"
    by (intro printText_skipped) auto
  then show ?thesis by simp
next
  case True
  then obtain dataFile where o: "sd_open sd filename = Some dataFile" by auto
  from True have e: "sd_exists sd filename" by simp
  show ?thesis
    unfolding printText_opened [OF e o]
    by (intro exI [of _ "textCalls (fst (readStringUntil (CHR 0x0A) (bytes dataFile)))
            (charAt (fontSize (configuration st)) 0)
            (bodyLines (snd (readStringUntil (CHR 0x0A) (bytes dataFile))))"])
      (auto simp: textCalls_def)
qed

lemma printDocument_printer:
  assumes "printDocument drv sd e st = Some st'"
  shows "\<exists>calls. printer st' = printer st @ calls \<and> Feed 2 \<notin> set calls"
proof -
  let ?st4 = "(serial_do (Serial_println (name e)) (serial_do (Serial_println (name e))
      (serial_do (Serial_print ''Printing document: '') st)))"
  let ?st5 = "readSettingsFromFile (Some e) (?st4\<lparr>document := Document_init (document ?st4)\<rparr>)"
  let ?st6 = "setPrinterParameters ?st5"
  from assms obtain b st7
    where i: "printImage drv sd (image_path (document ?st6)) (imageWidth (document ?st6))
        (imageHeight (document ?st6)) ?st6 = Some (b, st7)"
      and t: "st' = snd (printText sd (bodyText (document st7)) st7)"
    by (auto simp: printDocument_def Let_def split: option.splits)
  from printImage_result [OF i] obtain c1
    where c1: "printer st7 = printer ?st6 @ c1"
      and s1: "set c1 \<subseteq> {Feed 1, PrintBitmap (imageWidth (document ?st6)) (imageHeight (document ?st6))}"
    by auto
  from printText_printer [of sd "bodyText (document st7)" st7] t obtain c2
    where c2: "printer st' = printer st7 @ c2" and s2: "Feed 2 \<notin> set c2" by auto
  have "printer ?st6 = printer st @ paramCalls (configuration ?st5)"
    by (simp add: setPrinterParameters_eq)
  with c1 c2 have "printer st' = printer st @ (paramCalls (configuration ?st5) @ c1 @ c2)"
    by simp
  moreover have "Feed 2 \<notin> set (paramCalls (configuration ?st5) @ c1 @ c2)"
    using s1 s2 by (auto simp: paramCalls_def)
  ultimately show ?thesis by blast
qed

lemma printDocument_total:
  assumes "progressive drv"
  shows "\<exists>st'. printDocument drv sd e st = Some st'"
proof -
  let ?st4 = "(serial_do (Serial_println (name e)) (serial_do (Serial_println (name e))
      (serial_do (Serial_print ''Printing document: '') st)))"
  let ?st5 = "readSettingsFromFile (Some e) (?st4\<lparr>document := Document_init (document ?st4)\<rparr>)"
  let ?st6 = "setPrinterParameters ?st5"
  from printImage_total [OF assms, of sd "image_path (document ?st6)" "imageWidth (document ?st6)"
      "imageHeight (document ?st6)" ?st6]
  obtain r where "printImage drv sd (image_path (document ?st6)) (imageWidth (document ?st6))
        (imageHeight (document ?st6)) ?st6 = Some r" by blast
  then show ?thesis
    by (cases r) (simp add: printDocument_def Let_def)
qed

lemma printEntries_runDocuments:
  "printEntries drv sd d es st =
     map_option (serial_do (Serial_println (''No files left on '' @ d)))
       (runDocuments drv sd (filter (\<lambda>e. \<not> isDirectory e) es) st)"
  by (induction es arbitrary: st) (auto split: option.splits)

lemma runDocuments_printer:
  "runDocuments drv sd es st = Some st' \<Longrightarrow>
   \<exists>calls. printer st' = printer st @ calls \<and> Feed 2 \<notin> set calls"
proof (induction es arbitrary: st)
  case Nil
  then show ?case by simp
next
  case (Cons e es)
  from Cons.prems obtain st1 where a: "printDocument drv sd e st = Some st1"
    and b: "runDocuments drv sd es st1 = Some st'"
    by (auto split: option.splits)
  from printDocument_printer [OF a] obtain c1
    where "printer st1 = printer st @ c1" "Feed 2 \<notin> set c1" by blast
  moreover from Cons.IH [OF b] obtain c2
    where "printer st' = printer st1 @ c2" "Feed 2 \<notin> set c2" by blast
  ultimately have "printer st' = printer st @ (c1 @ c2) \<and> Feed 2 \<notin> set (c1 @ c2)" by simp
  then show ?case by blast
qed

lemma runDocuments_total:
  assumes "progressive drv"
  shows "\<exists>st'. runDocuments drv sd es st = Some st'"
proof (induction es arbitrary: st)
  case Nil
  then show ?case by simp
next
  case (Cons e es)
  from printDocument_total [OF assms, of sd e st]
  obtain st1 where "printDocument drv sd e st = Some st1" by blast
  with Cons [of st1] show ?case by simp
qed

text \<open>What \<open>printFromDirectory\<close> adds after the jobs of a directory that exists and opens.\<close>

definition finishDirectory :: "string \<Rightarrow> state \<Rightarrow> state" where
  "finishDirectory d st =
     printer_do (Feed 2)
       (serial_do (Serial_println (''Done with directory '' @ d))
          (serial_do (Serial_println (''No files left on '' @ d)) st))"

lemma printFromDirectory_opened:
  assumes "sd_exists sd d" and "sd_open sd d = Some dir"
  shows "printFromDirectory drv sd d st =
     map_option (finishDirectory d)
       (runDocuments drv sd (filter (\<lambda>e. \<not> isDirectory e) (entries dir)) st)"
  using assms
  by (simp add: printFromDirectory_def printEntries_runDocuments finishDirectory_def
      split: option.splits)

lemma printFromDirectory_missing:
  "\<not> sd_exists sd d \<Longrightarrow> printFromDirectory drv sd d st = Some (printer_do (Feed 2) st)"
  by (simp add: printFromDirectory_def)

lemma printFromDirectory_unopened:
  "sd_exists sd d \<Longrightarrow> sd_open sd d = None \<Longrightarrow>
   printFromDirectory drv sd d st =
     Some (printer_do (Feed 2) (serial_do (Serial_println (''Done with directory '' @ d)) st))"
  by (simp add: printFromDirectory_def)

text \<open>A driver that reads the whole stream in one call.\<close>

definition whole_stream_driver :: bitmap_driver where
  "whole_stream_driver = (\<lambda>w h s. Some [])"

text \<open>Cards for the instances below: no jobs location, and one holding subdirectories only.\<close>

definition card_only_subdirectories :: sdcard where
  "card_only_subdirectories =
     \<lparr>sd_begin = True,
      sd_exists = (\<lambda>p. p = ''/jobs/''),
      sd_open = (\<lambda>p. if p = ''/jobs/''
         then Some (SDFile True ''jobs'' []
           [SDFile True ''done'' [] [SDFile False ''old.txt'' ''[image=/img1.bmp]'' []],
            SDFile True ''spool'' [] []])
         else None)\<rparr>"

lemma progressive_whole_stream: "progressive whole_stream_driver"
  by (simp add: progressive_def whole_stream_driver_def)

lemma filter_all_directories:
  "list_all isDirectory es \<Longrightarrow> filter (\<lambda>e. \<not> isDirectory e) es = []"
  by (induction es) auto

text \<open>
  Claim C6. When the jobs location is missing (or does not open), or holds no entry that
  is not a directory, the pipeline returns having made a single printer call, the feed of
  two lines, and leaves Configuration and Job Descriptor alone. In general the calls of a
  run that gets through its jobs are the calls of the jobs, none of which is a feed of two
  lines, followed by that one feed; and the run does get through its jobs whenever the
  printer's bitmap call makes progress on the image stream.
\<close>

theorem final_feed_after_directory:
  "((\<not> sd_exists sd d \<or>
       (case sd_open sd d of None \<Rightarrow> True | Some dir \<Rightarrow> list_all isDirectory (entries dir))) \<longrightarrow>
      (\<exists>st'. printFromDirectory drv sd d st = Some st' \<and> printer st' = printer st @ [Feed 2] \<and>
         configuration st' = configuration st \<and> document st' = document st)) \<and>
   (\<forall>st'. printFromDirectory drv sd d st = Some st' \<longrightarrow>
      (\<exists>calls. printer st' = printer st @ calls @ [Feed 2] \<and> Feed 2 \<notin> set calls)) \<and>
   (progressive drv \<longrightarrow> (\<exists>st'. printFromDirectory drv sd d st = Some st'))"
proof (intro conjI impI allI)
  assume h: "\<not> sd_exists sd d \<or>
       (case sd_open sd d of None \<Rightarrow> True | Some dir \<Rightarrow> list_all isDirectory (entries dir))"
  show "\<exists>st'. printFromDirectory drv sd d st = Some st' \<and> printer st' = printer st @ [Feed 2] \<and>
         configuration st' = configuration st \<and> document st' = document st"
  proof (cases "sd_exists sd d")
    case False
    then show ?thesis by (simp add: printFromDirectory_missing)
  next
    case True
    show ?thesis
    proof (cases "sd_open sd d")
      case None
      with True show ?thesis by (simp add: printFromDirectory_unopened)
    next
      case (Some dir)
      with h True have "filter (\<lambda>e. \<not> isDirectory e) (entries dir) = []"
        by (intro filter_all_directories) simp
      then show ?thesis
        by (simp add: printFromDirectory_opened [OF True Some] finishDirectory_def)
    qed
  qed
next
  fix st'
  assume r: "printFromDirectory drv sd d st = Some st'"
  show "\<exists>calls. printer st' = printer st @ calls @ [Feed 2] \<and> Feed 2 \<notin> set calls"
  proof (cases "sd_exists sd d")
    case False
    with r have "printer st' = printer st @ [] @ [Feed 2]"
      by (auto simp: printFromDirectory_missing)
    then show ?thesis by (intro exI [of _ "[]"]) simp
  next
    case True
    show ?thesis
    proof (cases "sd_open sd d")
      case None
      with r True have "printer st' = printer st @ [] @ [Feed 2]"
        by (auto simp: printFromDirectory_unopened)
      then show ?thesis by (intro exI [of _ "[]"]) simp
    next
      case (Some dir)
      from r obtain st1
        where a: "runDocuments drv sd (filter (\<lambda>e. \<not> isDirectory e) (entries dir)) st = Some st1"
          and b: "st' = finishDirectory d st1"
        by (auto simp: printFromDirectory_opened [OF True Some])
      from runDocuments_printer [OF a] obtain calls
        where "printer st1 = printer st @ calls" and "Feed 2 \<notin> set calls" by blast
      with b have "printer st' = printer st @ calls @ [Feed 2] \<and> Feed 2 \<notin> set calls"
        by (simp add: finishDirectory_def)
      then show ?thesis by blast
    qed
  qed
next
  assume p: "progressive drv"
  show "\<exists>st'. printFromDirectory drv sd d st = Some st'"
  proof (cases "sd_exists sd d")
    case False
    then show ?thesis by (simp add: printFromDirectory_missing)
  next
    case True
    show ?thesis
    proof (cases "sd_open sd d")
      case None
      with True show ?thesis by (simp add: printFromDirectory_unopened)
    next
      case (Some dir)
      from runDocuments_total [OF p, of sd "filter (\<lambda>e. \<not> isDirectory e) (entries dir)" st]
      show ?thesis
        by (auto simp: printFromDirectory_opened [OF True Some])
    qed
  qed
qed

text \<open>
  Claim C6, instances: a card without the jobs location and a card whose jobs location
  holds two subdirectories (one of them with a file inside); in both the printer trace is
  the one feed.
\<close>

theorem final_feed_after_directory_witness:
  "\<not> sd_exists card_without_settings ''/jobs/'' \<and>
   map_option printer (printFromDirectory whole_stream_driver card_without_settings ''/jobs/''
     initial_state) = Some [Feed 2] \<and>
   sd_exists card_only_subdirectories ''/jobs/'' \<and>
   (case sd_open card_only_subdirectories ''/jobs/'' of None \<Rightarrow> True
    | Some dir \<Rightarrow> list_all isDirectory (entries dir)) \<and>
   map_option printer (printFromDirectory whole_stream_driver card_only_subdirectories ''/jobs/''
     initial_state) = Some [Feed 2] \<and>
   progressive whole_stream_driver"
proof -
  have a: "\<not> sd_exists card_without_settings ''/jobs/''"
    by (simp add: card_without_settings_def)
  have b: "sd_exists card_only_subdirectories ''/jobs/''"
    and c: "case sd_open card_only_subdirectories ''/jobs/'' of None \<Rightarrow> True
      | Some dir \<Rightarrow> list_all isDirectory (entries dir)"
    by (simp_all add: card_only_subdirectories_def)
  have d: "printer initial_state = []"
    by (simp add: initial_state_def)
  from final_feed_after_directory [of card_without_settings "''/jobs/''" whole_stream_driver
      initial_state] a d
  have e: "map_option printer (printFromDirectory whole_stream_driver card_without_settings
      ''/jobs/'' initial_state) = Some [Feed 2]"
    by auto
  from final_feed_after_directory [of card_only_subdirectories "''/jobs/''" whole_stream_driver
      initial_state] c d
  have f: "map_option printer (printFromDirectory whole_stream_driver card_only_subdirectories
      ''/jobs/'' initial_state) = Some [Feed 2]"
    by auto
  from a b c e f progressive_whole_stream show ?thesis by simp
qed

section \<open>What the printer is told about the configuration\<close>

text \<open>
  The values of the configuration that reach the printer: the heat time, the first
  character of the font size, the line height, the character set and the code page.
\<close>

definition printerView :: "Settings \<Rightarrow> int \<times> char \<times> int \<times> int \<times> int" where
  "printerView c = (heatTime c, charAt (fontSize c) 0, lineHeight c, charset c, codePage c)"

text \<open>
  Two states are the same for the printer when their printer traces and job descriptors
  are equal and their configurations have the same printer view.
\<close>

definition sameForPrinter :: "state \<Rightarrow> state \<Rightarrow> bool" where
  "sameForPrinter st st' =
     (printer st = printer st' \<and> document st = document st' \<and>
      printerView (configuration st) = printerView (configuration st'))"

lemma sameForPrinter_serial_do:
  "sameForPrinter st st' \<Longrightarrow> sameForPrinter (serial_do c st) (serial_do c' st')"
  by (simp add: sameForPrinter_def)

lemma sameForPrinter_printer_do:
  "sameForPrinter st st' \<Longrightarrow> sameForPrinter (printer_do c st) (printer_do c st')"
  by (simp add: sameForPrinter_def)

lemma sameForPrinter_applySetting:
  "sameForPrinter st st' \<Longrightarrow> sameForPrinter (applySetting k v st) (applySetting k v st')"
  by (simp add: sameForPrinter_def applySetting_def String_equals_c_str printerView_def Let_def)

lemma sameForPrinter_foldl:
  "sameForPrinter st st' \<Longrightarrow>
   sameForPrinter (foldl applyLogged st ps) (foldl applyLogged st' ps)"
proof (induction ps arbitrary: st st')
  case Nil
  then show ?case by simp
next
  case (Cons p ps)
  obtain k v where p: "p = (k, v)" by (cases p) auto
  from Cons.prems show ?case
    by (simp add: p Cons.IH sameForPrinter_applySetting sameForPrinter_serial_do)
qed

lemma sameForPrinter_readSettingsFromFile:
  "sameForPrinter st st' \<Longrightarrow>
   sameForPrinter (readSettingsFromFile (Some f) st) (readSettingsFromFile (Some f) st')"
  by (simp add: readSettingsFromFile_fold sameForPrinter_foldl)

lemma sameForPrinter_reset:
  "sameForPrinter st st' \<Longrightarrow>
   sameForPrinter (st\<lparr>document := Document_init (document st)\<rparr>)
     (st'\<lparr>document := Document_init (document st')\<rparr>)"
  by (simp add: sameForPrinter_def)

lemma sameForPrinter_setPrinterParameters:
  "sameForPrinter st st' \<Longrightarrow>
   sameForPrinter (setPrinterParameters st) (setPrinterParameters st')"
  by (simp add: sameForPrinter_def setPrinterParameters_eq paramCalls_def printerView_def)

lemma sameForPrinter_printBitmaps:
  assumes "sameForPrinter st st'"
  shows "rel_option sameForPrinter (printBitmaps drv w h s st) (printBitmaps drv w h s st')"
proof (cases "printBitmaps drv w h s st")
  case None
  have "printBitmaps drv w h s st' = None"
  proof (cases "printBitmaps drv w h s st'")
    case (Some r)
    from printBitmaps_calls [OF Some] None show ?thesis by auto
  qed simp
  with None show ?thesis by simp
next
  case (Some r)
  from printBitmaps_calls [OF Some] obtain n
    where "r = st\<lparr>printer := printer st @ replicate n (PrintBitmap w h)\<rparr>"
      and "printBitmaps drv w h s st'
        = Some (st'\<lparr>printer := printer st' @ replicate n (PrintBitmap w h)\<rparr>)"
    by blast
  with Some assms show ?thesis by (simp add: sameForPrinter_def)
qed

lemma sameForPrinter_printImage:
  assumes "sameForPrinter st st'"
  shows "rel_option (\<lambda>r r'. sameForPrinter (snd r) (snd r'))
    (printImage drv sd filename w h st) (printImage drv sd filename w h st')"
proof (cases "sd_exists sd filename \<and> sd_open sd filename \<noteq> None")
  case False
  with assms show ?thesis by (auto simp: printImage_def split: option.splits)
next
  case True
  then obtain imageFile where o: "sd_open sd filename = Some imageFile" by auto
  let ?l = "Serial_println (''Printing image from file: '' @ filename)"
  have "sameForPrinter (printer_do (Feed 1) (serial_do ?l st)) (printer_do (Feed 1) (serial_do ?l st'))"
    using assms by (intro sameForPrinter_printer_do sameForPrinter_serial_do)
  from sameForPrinter_printBitmaps [OF this, of drv w h "bytes imageFile"] True o
  show ?thesis
    by (auto simp: printImage_def Let_def option.rel_sel split: option.splits)
qed

lemma sameForPrinter_sym: "sameForPrinter st st' \<Longrightarrow> sameForPrinter st' st"
  by (simp add: sameForPrinter_def)

lemma sameForPrinter_printText:
  assumes "sameForPrinter st st'"
  shows "sameForPrinter (snd (printText sd filename st)) (snd (printText sd filename st'))"
proof (cases "sd_exists sd filename \<and> sd_open sd filename \<noteq> None")
  case False
  then have "\<not> sd_exists sd filename \<or> sd_open sd filename = None" by auto
  with assms show ?thesis by (simp add: printText_skipped)
next
  case True
  then obtain dataFile where o: "sd_open sd filename = Some dataFile" by auto
  from True have e: "sd_exists sd filename" by simp
  from assms show ?thesis
    by (simp add: printText_opened [OF e o] sameForPrinter_def printerView_def)
qed

lemma sameForPrinter_printDocument:
  assumes "sameForPrinter st st'"
  shows "rel_option sameForPrinter (printDocument drv sd e st) (printDocument drv sd e st')"
proof -
  let ?pre = "\<lambda>st. setPrinterParameters (readSettingsFromFile (Some e)
      ((serial_do (Serial_println (name e)) (serial_do (Serial_println (name e))
        (serial_do (Serial_print ''Printing document: '') st)))
       \<lparr>document := Document_init (document st)\<rparr>))"
  have pre: "sameForPrinter (?pre st) (?pre st')"
    using assms
    by (intro sameForPrinter_setPrinterParameters sameForPrinter_readSettingsFromFile)
      (simp add: sameForPrinter_def)
  then have doc: "document (?pre st) = document (?pre st')"
    by (simp add: sameForPrinter_def)
  have eq: "printDocument drv sd e s =
      (case printImage drv sd (image_path (document (?pre s))) (imageWidth (document (?pre s)))
              (imageHeight (document (?pre s))) (?pre s) of
         None \<Rightarrow> None
       | Some r \<Rightarrow> Some (snd (printText sd (bodyText (document (snd r))) (snd r))))" for s
    by (simp add: printDocument_def Let_def split: option.splits prod.splits)
  let ?i = "\<lambda>s. printImage drv sd (image_path (document (?pre st)))
      (imageWidth (document (?pre st))) (imageHeight (document (?pre st))) (?pre s)"
  have rel: "rel_option (\<lambda>r r'. sameForPrinter (snd r) (snd r')) (?i st) (?i st')"
    by (rule sameForPrinter_printImage [OF pre])
  show ?thesis
  proof (cases "?i st")
    case None
    with rel have "?i st' = None" by (cases "?i st'") simp_all
    with None show ?thesis
      unfolding eq [of st] eq [of st'] doc [symmetric] by simp
  next
    case (Some r)
    with rel obtain r' where r': "?i st' = Some r'" and s: "sameForPrinter (snd r) (snd r')"
      by (cases "?i st'") simp_all
    from s have d: "document (snd r) = document (snd r')"
      by (simp add: sameForPrinter_def)
    from sameForPrinter_printText [OF s, of sd "bodyText (document (snd r))"] d Some r'
    show ?thesis
      unfolding eq [of st] eq [of st'] doc [symmetric] by simp
  qed
qed

lemma sameForPrinter_runDocuments:
  "sameForPrinter st st' \<Longrightarrow>
   rel_option sameForPrinter (runDocuments drv sd es st) (runDocuments drv sd es st')"
proof (induction es arbitrary: st st')
  case Nil
  then show ?case by simp
next
  case (Cons e es)
  from sameForPrinter_printDocument [OF Cons.prems, of drv sd e] show ?case
    by (cases "printDocument drv sd e st"; cases "printDocument drv sd e st'")
      (simp_all add: Cons.IH)
qed

lemma sameForPrinter_printFromDirectory:
  assumes "sameForPrinter st st'"
  shows "map_option printer (printFromDirectory drv sd d st)
    = map_option printer (printFromDirectory drv sd d st')"
proof (cases "sd_exists sd d")
  case False
  with assms show ?thesis by (simp add: printFromDirectory_missing sameForPrinter_def)
next
  case True
  show ?thesis
  proof (cases "sd_open sd d")
    case None
    with True assms show ?thesis by (simp add: printFromDirectory_unopened sameForPrinter_def)
  next
    case (Some dir)
    from sameForPrinter_runDocuments [OF assms, of drv sd "filter (\<lambda>e. \<not> isDirectory e) (entries dir)"]
    show ?thesis
      unfolding printFromDirectory_opened [OF True Some]
      by (cases "runDocuments drv sd (filter (\<lambda>e. \<not> isDirectory e) (entries dir)) st";
          cases "runDocuments drv sd (filter (\<lambda>e. \<not> isDirectory e) (entries dir)) st'")
        (simp_all add: finishDirectory_def sameForPrinter_def)
  qed
qed

text \<open>
  Claim C9. Of the configured font size only the first character reaches the printer:
  \<open>setPrinterParameters\<close> sends \<open>charAt(0)\<close> of it, the text step sets the size to
  \<open>M\<close> for the title line whatever the font size is and restores \<open>charAt(0)\<close> of it
  after the title, and the printer calls of a whole directory scan are the same for two
  font sizes with the same first character, as \<open>Small\<close> and \<open>S\<close>.
\<close>

theorem only_first_font_character_sent:
  "printer (setPrinterParameters st) =
     printer st @
       [Begin (heatTime (configuration st)), SetSize (charAt (fontSize (configuration st)) 0),
        SetLineHeight (lineHeight (configuration st)), SetCharset (charset (configuration st)),
        SetCodePage (codePage (configuration st))] \<and>
   (sd_exists sd filename \<and> sd_open sd filename = Some dataFile \<longrightarrow>
      printer (snd (printText sd filename st)) =
        printer st @
          [Feed 1, BoldOn, Justify (CHR ''C''), SetSize (CHR ''M''),
           Println (fst (readStringUntil (CHR 0x0A) (bytes dataFile))),
           SetSize (charAt (fontSize (configuration st)) 0), Justify (CHR ''L''), BoldOff] @
          map Println (bodyLines (snd (readStringUntil (CHR 0x0A) (bytes dataFile))))) \<and>
   (charAt F 0 = charAt G 0 \<longrightarrow>
      map_option printer
        (printFromDirectory drv sd d (st\<lparr>configuration := (configuration st)\<lparr>fontSize := F\<rparr>\<rparr>)) =
      map_option printer
        (printFromDirectory drv sd d (st\<lparr>configuration := (configuration st)\<lparr>fontSize := G\<rparr>\<rparr>))) \<and>
   charAt ''Small'' 0 = charAt ''S'' 0"
proof (intro conjI impI)
  show "printer (setPrinterParameters st) =
     printer st @
       [Begin (heatTime (configuration st)), SetSize (charAt (fontSize (configuration st)) 0),
        SetLineHeight (lineHeight (configuration st)), SetCharset (charset (configuration st)),
        SetCodePage (codePage (configuration st))]"
    by (simp add: setPrinterParameters_eq paramCalls_def)
next
  assume "sd_exists sd filename \<and> sd_open sd filename = Some dataFile"
  then have e: "sd_exists sd filename" and o: "sd_open sd filename = Some dataFile" by simp_all
  show "printer (snd (printText sd filename st)) =
        printer st @
          [Feed 1, BoldOn, Justify (CHR ''C''), SetSize (CHR ''M''),
           Println (fst (readStringUntil (CHR 0x0A) (bytes dataFile))),
           SetSize (charAt (fontSize (configuration st)) 0), Justify (CHR ''L''), BoldOff] @
          map Println (bodyLines (snd (readStringUntil (CHR 0x0A) (bytes dataFile))))"
    by (simp add: printText_opened [OF e o] textCalls_def)
next
  assume c: "charAt F 0 = charAt G 0"
  show "map_option printer
        (printFromDirectory drv sd d (st\<lparr>configuration := (configuration st)\<lparr>fontSize := F\<rparr>\<rparr>)) =
      map_option printer
        (printFromDirectory drv sd d (st\<lparr>configuration := (configuration st)\<lparr>fontSize := G\<rparr>\<rparr>))"
    by (rule sameForPrinter_printFromDirectory) (simp add: sameForPrinter_def printerView_def c)
next
  show "charAt ''Small'' 0 = charAt ''S'' 0"
    by (simp add: charAt_def)
qed

text \<open>
  Claim C9, an instance: with the font size \<open>Small\<close> the parameters carry the size
  \<open>S\<close>, the title of a two-line text is printed at size \<open>M\<close> and the body at size
  \<open>S\<close>, and a directory scan prints what it prints with the font size \<open>S\<close>.
\<close>

theorem only_first_font_character_sent_witness:
  "sd_exists (card_with_text ''Title'') ''/txt1.txt'' \<and>
   sd_open (card_with_text ''Title'') ''/txt1.txt'' = Some (SDFile False ''txt1.txt'' ''Title'' []) \<and>
   charAt ''Small'' 0 = charAt ''S'' 0 \<and>
   printer (setPrinterParameters
       (initial_state\<lparr>configuration := (configuration initial_state)\<lparr>fontSize := ''Small''\<rparr>\<rparr>)) =
     [Begin 0, SetSize (CHR ''S''), SetLineHeight 0, SetCharset 0, SetCodePage 0] \<and>
   printer (snd (printText (card_with_text ''Title'') ''/txt1.txt''
       (initial_state\<lparr>configuration := (configuration initial_state)\<lparr>fontSize := ''Small''\<rparr>\<rparr>))) =
     [Feed 1, BoldOn, Justify (CHR ''C''), SetSize (CHR ''M''), Println ''Title'',
      SetSize (CHR ''S''), Justify (CHR ''L''), BoldOff] \<and>
   map_option printer (printFromDirectory whole_stream_driver card_only_subdirectories ''/jobs/''
       (initial_state\<lparr>configuration := (configuration initial_state)\<lparr>fontSize := ''Small''\<rparr>\<rparr>)) =
   map_option printer (printFromDirectory whole_stream_driver card_only_subdirectories ''/jobs/''
       (initial_state\<lparr>configuration := (configuration initial_state)\<lparr>fontSize := ''S''\<rparr>\<rparr>))"
proof -
  let ?st = "initial_state\<lparr>configuration := (configuration initial_state)\<lparr>fontSize := ''Small''\<rparr>\<rparr>"
  have a: "sd_exists (card_with_text ''Title'') ''/txt1.txt''"
    and b: "sd_open (card_with_text ''Title'') ''/txt1.txt''
      = Some (SDFile False ''txt1.txt'' ''Title'' [])"
    by (simp_all add: card_with_text_def)
  have c: "charAt ''Small'' 0 = CHR ''S''" "charAt ''S'' 0 = CHR ''S''"
    by (simp_all add: charAt_def)
  have d: "printer initial_state = []" "heatTime (configuration initial_state) = 0"
    "lineHeight (configuration initial_state) = 0" "charset (configuration initial_state) = 0"
    "codePage (configuration initial_state) = 0"
    by (simp_all add: initial_state_def)
  note t = only_first_font_character_sent [of ?st "card_with_text ''Title''" "''/txt1.txt''"
      "SDFile False ''txt1.txt'' ''Title'' []" "''Small''" "''S''" whole_stream_driver "''/jobs/''"]
    only_first_font_character_sent [of initial_state card_only_subdirectories "''/txt1.txt''"
      "SDFile False ''txt1.txt'' ''Title'' []" "''Small''" "''S''" whole_stream_driver "''/jobs/''"]
  from t a b show ?thesis
    by (simp add: c d bodyLines_Nil)
qed

section \<open>The directory of a scan\<close>

text \<open>
  Claim C8. The directory a scan goes through is fixed when the scan starts: the jobs it
  runs are the entries, other than directories, of the directory opened under the name
  handed to \<open>printFromDirectory\<close>, whatever state the scan starts in and whatever the job
  files assign. A job file that applies the \<open>jobs\<close> key changes
  \<open>configuration.jobs\<close> and nothing the scan reads: the printer calls of a scan of a
  given directory do not depend on \<open>configuration.jobs\<close>. The new value is the
  directory of a scan started afterwards with \<open>configuration.jobs\<close> as its argument, as
  \<open>setup\<close> starts its one scan after loading the settings.
\<close>

theorem scan_directory_fixed_at_start:
  "(sd_exists sd d \<and> sd_open sd d = Some dir \<longrightarrow>
      printFromDirectory drv sd d st =
        map_option (finishDirectory d)
          (runDocuments drv sd (filter (\<lambda>e. \<not> isDirectory e) (entries dir)) st)) \<and>
   map_option printer
     (printFromDirectory drv sd d (st\<lparr>configuration := (configuration st)\<lparr>jobs := j\<rparr>\<rparr>)) =
   map_option printer (printFromDirectory drv sd d st) \<and>
   applySetting ''jobs'' v st = st\<lparr>configuration := (configuration st)\<lparr>jobs := v\<rparr>\<rparr> \<and>
   (sd_begin sd \<longrightarrow>
      setup_sketch drv sd st =
        map_option
          (\<lambda>s. serial_do (Serial_println ''Done init'')
             (printer_do SetDefault (printer_do Wake (printer_do Sleep s))))
          (printFromDirectory drv sd (jobs (configuration (loadSettings sd st)))
             (loadSettings sd st)))"
proof (intro conjI impI)
  assume "sd_exists sd d \<and> sd_open sd d = Some dir"
  then show "printFromDirectory drv sd d st =
        map_option (finishDirectory d)
          (runDocuments drv sd (filter (\<lambda>e. \<not> isDirectory e) (entries dir)) st)"
    by (simp add: printFromDirectory_opened)
next
  show "map_option printer
     (printFromDirectory drv sd d (st\<lparr>configuration := (configuration st)\<lparr>jobs := j\<rparr>\<rparr>)) =
   map_option printer (printFromDirectory drv sd d st)"
    by (rule sameForPrinter_printFromDirectory) (simp add: sameForPrinter_def printerView_def)
next
  show "applySetting ''jobs'' v st = st\<lparr>configuration := (configuration st)\<lparr>jobs := v\<rparr>\<rparr>"
    by (simp add: applySetting_def String_equals_c_str)
next
  assume "sd_begin sd"
  then show "setup_sketch drv sd st =
        map_option
          (\<lambda>s. serial_do (Serial_println ''Done init'')
             (printer_do SetDefault (printer_do Wake (printer_do Sleep s))))
          (printFromDirectory drv sd (jobs (configuration (loadSettings sd st)))
             (loadSettings sd st))"
    by (simp add: setup_sketch_def Let_def split: option.splits)
qed

text \<open>A card whose first job names another directory as the jobs location.\<close>

definition card_redirect :: sdcard where
  "card_redirect =
     \<lparr>sd_begin = True,
      sd_exists = (\<lambda>p. p = ''/jobs/'' \<or> p = ''/other/''),
      sd_open = (\<lambda>p.
         if p = ''/jobs/'' then
           Some (SDFile True ''jobs'' []
             [SDFile False ''job1'' ''[jobs=/other/]'' [], SDFile False ''job2'' [] []])
         else if p = ''/other/'' then
           Some (SDFile True ''other'' [] [SDFile False ''job3'' [] []])
         else None)\<rparr>"

lemma card_redirect_run:
  "map_option (\<lambda>s. (jobs (configuration s), serial s))
     (map_option (finishDirectory ''/jobs/'')
        (runDocuments whole_stream_driver card_redirect
           [SDFile False ''job1'' ''[jobs=/other/]'' [], SDFile False ''job2'' [] []]
           initial_state)) =
   Some (''/other/'',
     [Serial_print ''Printing document: '', Serial_println ''job1'', Serial_println ''job1'',
      Serial_println ''Applying setting: jobs=/other/'',
      Serial_print ''Printing document: '', Serial_println ''job2'', Serial_println ''job2'',
      Serial_println ''No files left on /jobs/'', Serial_println ''Done with directory /jobs/''])"
  by code_simp

text \<open>
  Claim C8, an instance: the first job of \<open>/jobs/\<close> sets \<open>jobs\<close> to \<open>/other/\<close>, a
  directory with a job of its own. The scan of \<open>/jobs/\<close> still runs the two jobs of
  \<open>/jobs/\<close> and no other, and ends with \<open>configuration.jobs\<close> set to \<open>/other/\<close>.
\<close>

theorem scan_directory_fixed_at_start_witness:
  "sd_exists card_redirect ''/jobs/'' \<and>
   sd_open card_redirect ''/jobs/'' =
     Some (SDFile True ''jobs'' []
       [SDFile False ''job1'' ''[jobs=/other/]'' [], SDFile False ''job2'' [] []]) \<and>
   map_option (\<lambda>s. jobs (configuration s))
     (printFromDirectory whole_stream_driver card_redirect ''/jobs/'' initial_state)
     = Some ''/other/'' \<and>
   map_option serial
     (printFromDirectory whole_stream_driver card_redirect ''/jobs/'' initial_state) =
   Some
     [Serial_print ''Printing document: '', Serial_println ''job1'', Serial_println ''job1'',
      Serial_println ''Applying setting: jobs=/other/'',
      Serial_print ''Printing document: '', Serial_println ''job2'', Serial_println ''job2'',
      Serial_println ''No files left on /jobs/'', Serial_println ''Done with directory /jobs/'']"
proof -
  have a: "sd_exists card_redirect ''/jobs/''"
    and b: "sd_open card_redirect ''/jobs/'' =
     Some (SDFile True ''jobs'' []
       [SDFile False ''job1'' ''[jobs=/other/]'' [], SDFile False ''job2'' [] []])"
    by (simp_all add: card_redirect_def)
  from scan_directory_fixed_at_start [of card_redirect "''/jobs/''"
      "SDFile True ''jobs'' []
         [SDFile False ''job1'' ''[jobs=/other/]'' [], SDFile False ''job2'' [] []]"
      whole_stream_driver initial_state] a b
  have c: "printFromDirectory whole_stream_driver card_redirect ''/jobs/'' initial_state =
      map_option (finishDirectory ''/jobs/'')
        (runDocuments whole_stream_driver card_redirect
           [SDFile False ''job1'' ''[jobs=/other/]'' [], SDFile False ''job2'' [] []]
           initial_state)"
    by simp
  from card_redirect_run obtain s
    where d: "map_option (finishDirectory ''/jobs/'')
        (runDocuments whole_stream_driver card_redirect
           [SDFile False ''job1'' ''[jobs=/other/]'' [], SDFile False ''job2'' [] []]
           initial_state) = Some s"
      and e: "jobs (configuration s) = ''/other/''"
      and f: "serial s =
     [Serial_print ''Printing document: '', Serial_println ''job1'', Serial_println ''job1'',
      Serial_println ''Applying setting: jobs=/other/'',
      Serial_print ''Printing document: '', Serial_println ''job2'', Serial_println ''job2'',
      Serial_println ''No files left on /jobs/'', Serial_println ''Done with directory /jobs/'']"
    by auto
  from c d
  have g: "printFromDirectory whole_stream_driver card_redirect ''/jobs/'' initial_state = Some s"
    by (rule trans)
  from a b e f show ?thesis
    unfolding g by simp
qed

section \<open>A job with an image and a text\<close>

lemma toInt_384_200: "toInt ''384'' = 384" "toInt ''200'' = 200"
  by (simp_all add: toInt_def isspace_def isdigit_def wrap32_def)

text \<open>Cards and a job file for the instances below.\<close>

definition job_image_text :: sdfile where
  "job_image_text =
     SDFile False ''job1'' ''[image=/img1.bmp][width=384][height=200][body_text=/txt1.txt]'' []"

definition card_image_text :: "string \<Rightarrow> sdcard" where
  "card_image_text imageBytes =
     \<lparr>sd_begin = True,
      sd_exists = (\<lambda>p. p = ''/img1.bmp'' \<or> p = ''/txt1.txt''),
      sd_open = (\<lambda>p.
         if p = ''/img1.bmp'' then Some (SDFile False ''img1.bmp'' imageBytes [])
         else if p = ''/txt1.txt'' then
           Some (SDFile False ''txt1.txt'' (''Title'' @ [CHR 0x0A] @ ''body'') [])
         else None)\<rparr>"

lemma job_image_text_run:
  assumes "wellFormed [(g1, ''image'', ip), (g2, ''width'', ''384''), (g3, ''height'', ''200''),
      (g4, ''body_text'', tp)]"
    and "CHR ''['' \<notin> set trailing"
    and "bytes entry = settingsText [(g1, ''image'', ip), (g2, ''width'', ''384''),
      (g3, ''height'', ''200''), (g4, ''body_text'', tp)] trailing"
    and "sd_exists sd ip" and "sd_open sd ip = Some imageFile"
    and "sd_exists sd tp" and "sd_open sd tp = Some dataFile"
    and "\<And>s. printBitmaps drv 384 200 (bytes imageFile) s = Some (s\<lparr>printer := printer s @ bm\<rparr>)"
  shows "\<exists>st'. printDocument drv sd entry st = Some st' \<and>
    printer st' =
      printer st @ paramCalls (configuration st) @ [Feed 1] @ bm @
        textCalls (fst (readStringUntil (CHR 0x0A) (bytes dataFile)))
          (charAt (fontSize (configuration st)) 0)
          (bodyLines (snd (readStringUntil (CHR 0x0A) (bytes dataFile))))"
proof -
  let ?st4 = "(serial_do (Serial_println (name entry)) (serial_do (Serial_println (name entry))
      (serial_do (Serial_print ''Printing document: '') st)))
      \<lparr>document := Document_init (document st)\<rparr>"
  let ?st5 = "readSettingsFromFile (Some entry) ?st4"
  have pairs: "appliedPairs [] [] (bytes entry) =
      [(''image'', ip), (''width'', ''384''), (''height'', ''200''), (''body_text'', tp)]"
    using appliedPairs_settingsText [OF assms(1), of trailing] appliedPairs_no_open [OF assms(2)]
      assms(3) by simp
  have doc: "image_path (document ?st5) = ip" "imageWidth (document ?st5) = 384"
    "imageHeight (document ?st5) = 200" "bodyText (document ?st5) = tp"
    by (simp_all add: readSettingsFromFile_fold pairs applySetting_def String_equals_c_str toInt_384_200 wrap16_def)
  have cfg: "configuration ?st5 = configuration st"
    by (simp add: readSettingsFromFile_fold pairs applySetting_def String_equals_c_str)
  let ?st6 = "setPrinterParameters ?st5"
  have st6: "document ?st6 = document ?st5" "configuration ?st6 = configuration st"
    "printer ?st6 = printer st @ paramCalls (configuration st)"
    by (simp_all add: setPrinterParameters_eq cfg)
  let ?st2 = "printer_do (Feed 1)
      (serial_do (Serial_println (''Printing image from file: '' @ ip)) ?st6)"
  let ?st7 = "?st2\<lparr>printer := printer ?st2 @ bm\<rparr>"
  have img: "printImage drv sd ip 384 200 ?st6 = Some (True, ?st7)"
    using assms(4,5) assms(8) [of ?st2]
    by (simp add: printImage_def Let_def)
  have st7: "document ?st7 = document ?st5" "configuration ?st7 = configuration st"
    "printer ?st7 = printer st @ paramCalls (configuration st) @ [Feed 1] @ bm"
    by (simp_all add: st6)
  have run: "printDocument drv sd entry st = Some (snd (printText sd tp ?st7))"
    using img by (simp add: printDocument_def Let_def st6 doc)
  have "printer (snd (printText sd tp ?st7)) =
      printer ?st7 @
        textCalls (fst (readStringUntil (CHR 0x0A) (bytes dataFile)))
          (charAt (fontSize (configuration ?st7)) 0)
          (bodyLines (snd (readStringUntil (CHR 0x0A) (bytes dataFile))))"
    by (simp add: printText_opened [OF assms(6,7)])
  then have "printer (snd (printText sd tp ?st7)) =
      printer st @ paramCalls (configuration st) @ [Feed 1] @ bm @
        textCalls (fst (readStringUntil (CHR 0x0A) (bytes dataFile)))
          (charAt (fontSize (configuration st)) 0)
          (bodyLines (snd (readStringUntil (CHR 0x0A) (bytes dataFile))))"
    unfolding st7 by simp
  with run show ?thesis by blast
qed

text \<open>
  Claim C2, as amended. For a job whose settings file sets \<open>image\<close>, \<open>width=384\<close>,
  \<open>height=200\<close> and \<open>body_text\<close>, with both resources existing and opening, and with
  an image resource that is not empty and that one bitmap call reads to its end, the job
  pushes the parameters, then issues a feed and exactly one \<open>printBitmap(384, 200, ...)\<close>,
  then the text sequence: the first line bold, centred, at size M, and every remaining
  line left-justified, not bold, at the first character of the configured font size.
\<close>

theorem job_prints_one_bitmap_then_text:
  assumes "wellFormed [(g1, ''image'', ip), (g2, ''width'', ''384''), (g3, ''height'', ''200''),
      (g4, ''body_text'', tp)]"
    and "CHR ''['' \<notin> set trailing"
    and "bytes entry = settingsText [(g1, ''image'', ip), (g2, ''width'', ''384''),
      (g3, ''height'', ''200''), (g4, ''body_text'', tp)] trailing"
    and "sd_exists sd ip" and "sd_open sd ip = Some imageFile"
    and "sd_exists sd tp" and "sd_open sd tp = Some dataFile"
    and "bytes imageFile \<noteq> []" and "drv 384 200 (bytes imageFile) = Some []"
  shows "\<exists>st'. printDocument drv sd entry st = Some st' \<and>
    printer st' =
      printer st @
        [Begin (heatTime (configuration st)), SetSize (charAt (fontSize (configuration st)) 0),
         SetLineHeight (lineHeight (configuration st)), SetCharset (charset (configuration st)),
         SetCodePage (codePage (configuration st)),
         Feed 1, PrintBitmap 384 200,
         Feed 1, BoldOn, Justify (CHR ''C''), SetSize (CHR ''M''),
         Println (fst (readStringUntil (CHR 0x0A) (bytes dataFile))),
         SetSize (charAt (fontSize (configuration st)) 0), Justify (CHR ''L''), BoldOff] @
        map Println (bodyLines (snd (readStringUntil (CHR 0x0A) (bytes dataFile))))"
proof -
  have "printBitmaps drv 384 200 (bytes imageFile) s
      = Some (s\<lparr>printer := printer s @ [PrintBitmap 384 200]\<rparr>)" for s
    using assms(8,9) by (simp add: printBitmaps_Cons printBitmaps_Nil printer_do_def)
  from job_image_text_run [OF assms(1-7) this, of st] show ?thesis
    by (simp add: paramCalls_def textCalls_def)
qed

text \<open>
  Claim C2, an instance: the job file of the scenario, an image of one byte that the
  driver reads in one call, and a text of two lines, starting from the default
  configuration.
\<close>

theorem job_prints_one_bitmap_then_text_witness:
  "wellFormed [([], ''image'', ''/img1.bmp''), ([], ''width'', ''384''), ([], ''height'', ''200''),
      ([], ''body_text'', ''/txt1.txt'')] \<and>
   bytes job_image_text = settingsText [([], ''image'', ''/img1.bmp''), ([], ''width'', ''384''),
      ([], ''height'', ''200''), ([], ''body_text'', ''/txt1.txt'')] [] \<and>
   sd_exists (card_image_text ''x'') ''/img1.bmp'' \<and>
   sd_open (card_image_text ''x'') ''/img1.bmp'' = Some (SDFile False ''img1.bmp'' ''x'' []) \<and>
   sd_exists (card_image_text ''x'') ''/txt1.txt'' \<and>
   sd_open (card_image_text ''x'') ''/txt1.txt''
     = Some (SDFile False ''txt1.txt'' (''Title'' @ [CHR 0x0A] @ ''body'') []) \<and>
   whole_stream_driver 384 200 ''x'' = Some [] \<and>
   map_option printer
     (printDocument whole_stream_driver (card_image_text ''x'') job_image_text
        (initial_state\<lparr>configuration := Settings_init (configuration initial_state)\<rparr>)) =
   Some
     [Begin 120, SetSize (CHR ''S''), SetLineHeight 28, SetCharset CHARSET_USA,
      SetCodePage CODEPAGE_CP437,
      Feed 1, PrintBitmap 384 200,
      Feed 1, BoldOn, Justify (CHR ''C''), SetSize (CHR ''M''), Println ''Title'',
      SetSize (CHR ''S''), Justify (CHR ''L''), BoldOff, Println ''body'']"
proof -
  let ?st = "initial_state\<lparr>configuration := Settings_init (configuration initial_state)\<rparr>"
  have a: "wellFormed [([], ''image'', ''/img1.bmp''), ([], ''width'', ''384''),
      ([], ''height'', ''200''), ([], ''body_text'', ''/txt1.txt'')]"
    by (simp add: plain_def)
  have b: "bytes job_image_text = settingsText [([], ''image'', ''/img1.bmp''),
      ([], ''width'', ''384''), ([], ''height'', ''200''), ([], ''body_text'', ''/txt1.txt'')] []"
    by (simp add: job_image_text_def)
  have c: "sd_exists (card_image_text ''x'') ''/img1.bmp''"
    and d: "sd_open (card_image_text ''x'') ''/img1.bmp'' = Some (SDFile False ''img1.bmp'' ''x'' [])"
    and e: "sd_exists (card_image_text ''x'') ''/txt1.txt''"
    and f: "sd_open (card_image_text ''x'') ''/txt1.txt''
     = Some (SDFile False ''txt1.txt'' (''Title'' @ [CHR 0x0A] @ ''body'') [])"
    by (simp_all add: card_image_text_def)
  have g: "bytes (SDFile False ''img1.bmp'' ''x'' []) \<noteq> []"
    and h: "whole_stream_driver 384 200 (bytes (SDFile False ''img1.bmp'' ''x'' [])) = Some []"
    by (simp_all add: whole_stream_driver_def)
  have i: "CHR ''['' \<notin> set []" by simp
  have j: "readStringUntil (CHR 0x0A) (''Title'' @ [CHR 0x0A] @ ''body'') = (''Title'', ''body'')"
    by simp
  have k: "bodyLines ''body'' = [''body'']"
    by code_simp
  have l: "printer ?st = []" "heatTime (configuration ?st) = 120"
    "charAt (fontSize (configuration ?st)) 0 = CHR ''S''" "lineHeight (configuration ?st) = 28"
    "charset (configuration ?st) = CHARSET_USA" "codePage (configuration ?st) = CODEPAGE_CP437"
    by (simp_all add: initial_state_def Settings_init_def charAt_def)
  from job_prints_one_bitmap_then_text [where ?g1.0 = "[]" and ?g2.0 = "[]" and ?g3.0 = "[]"
      and ?g4.0 = "[]" and ip = "''/img1.bmp''" and tp = "''/txt1.txt''" and trailing = "[]"
      and entry = job_image_text and sd = "card_image_text ''x''" and drv = whole_stream_driver
      and imageFile = "SDFile False ''img1.bmp'' ''x'' []"
      and dataFile = "SDFile False ''txt1.txt'' (''Title'' @ [CHR 0x0A] @ ''body'') []"
      and st = ?st, OF a i b c d e f g h]
  have "map_option printer
     (printDocument whole_stream_driver (card_image_text ''x'') job_image_text ?st) =
   Some
     [Begin 120, SetSize (CHR ''S''), SetLineHeight 28, SetCharset CHARSET_USA,
      SetCodePage CODEPAGE_CP437,
      Feed 1, PrintBitmap 384 200,
      Feed 1, BoldOn, Justify (CHR ''C''), SetSize (CHR ''M''), Println ''Title'',
      SetSize (CHR ''S''), Justify (CHR ''L''), BoldOff, Println ''body'']"
    unfolding l by (auto simp: j k)
  with a b c d e f h show ?thesis by simp
qed

text \<open>
  Claim C2, as stated, fails for an image resource that exists and opens but is empty:
  the loop \<open>while (imageFile.available())\<close> is not entered, and the job issues the
  feed and the text sequence without any \<open>printBitmap\<close> call.
\<close>

theorem empty_image_no_bitmap_counterexample:
  "sd_exists (card_image_text []) ''/img1.bmp'' \<and>
   sd_open (card_image_text []) ''/img1.bmp'' = Some (SDFile False ''img1.bmp'' [] []) \<and>
   sd_exists (card_image_text []) ''/txt1.txt'' \<and>
   sd_open (card_image_text []) ''/txt1.txt''
     = Some (SDFile False ''txt1.txt'' (''Title'' @ [CHR 0x0A] @ ''body'') []) \<and>
   map_option printer
     (printDocument whole_stream_driver (card_image_text []) job_image_text
        (initial_state\<lparr>configuration := Settings_init (configuration initial_state)\<rparr>)) =
   Some
     [Begin 120, SetSize (CHR ''S''), SetLineHeight 28, SetCharset CHARSET_USA,
      SetCodePage CODEPAGE_CP437,
      Feed 1,
      Feed 1, BoldOn, Justify (CHR ''C''), SetSize (CHR ''M''), Println ''Title'',
      SetSize (CHR ''S''), Justify (CHR ''L''), BoldOff, Println ''body'']"
proof -
  let ?st = "initial_state\<lparr>configuration := Settings_init (configuration initial_state)\<rparr>"
  have a: "wellFormed [([], ''image'', ''/img1.bmp''), ([], ''width'', ''384''),
      ([], ''height'', ''200''), ([], ''body_text'', ''/txt1.txt'')]"
    by (simp add: plain_def)
  have b: "bytes job_image_text = settingsText [([], ''image'', ''/img1.bmp''),
      ([], ''width'', ''384''), ([], ''height'', ''200''), ([], ''body_text'', ''/txt1.txt'')] []"
    by (simp add: job_image_text_def)
  have c: "sd_exists (card_image_text []) ''/img1.bmp''"
    and d: "sd_open (card_image_text []) ''/img1.bmp'' = Some (SDFile False ''img1.bmp'' [] [])"
    and e: "sd_exists (card_image_text []) ''/txt1.txt''"
    and f: "sd_open (card_image_text []) ''/txt1.txt''
     = Some (SDFile False ''txt1.txt'' (''Title'' @ [CHR 0x0A] @ ''body'') [])"
    by (simp_all add: card_image_text_def)
  have g: "printBitmaps whole_stream_driver 384 200 (bytes (SDFile False ''img1.bmp'' [] [])) s
      = Some (s\<lparr>printer := printer s @ []\<rparr>)" for s
    by (simp add: printBitmaps_Nil)
  have i: "CHR ''['' \<notin> set []" by simp
  have j: "readStringUntil (CHR 0x0A) (''Title'' @ [CHR 0x0A] @ ''body'') = (''Title'', ''body'')"
    by simp
  have k: "bodyLines ''body'' = [''body'']"
    by code_simp
  have l: "printer ?st = []" "heatTime (configuration ?st) = 120"
    "charAt (fontSize (configuration ?st)) 0 = CHR ''S''" "lineHeight (configuration ?st) = 28"
    "charset (configuration ?st) = CHARSET_USA" "codePage (configuration ?st) = CODEPAGE_CP437"
    by (simp_all add: initial_state_def Settings_init_def charAt_def)
  from job_image_text_run [where ?g1.0 = "[]" and ?g2.0 = "[]" and ?g3.0 = "[]"
      and ?g4.0 = "[]" and ip = "''/img1.bmp''" and tp = "''/txt1.txt''" and trailing = "[]"
      and entry = job_image_text and sd = "card_image_text []" and drv = whole_stream_driver
      and imageFile = "SDFile False ''img1.bmp'' [] []"
      and dataFile = "SDFile False ''txt1.txt'' (''Title'' @ [CHR 0x0A] @ ''body'') []"
      and st = ?st and bm = "[]", OF a i b c d e f g]
  have "map_option printer
     (printDocument whole_stream_driver (card_image_text []) job_image_text ?st) =
   Some
     [Begin 120, SetSize (CHR ''S''), SetLineHeight 28, SetCharset CHARSET_USA,
      SetCodePage CODEPAGE_CP437,
      Feed 1,
      Feed 1, BoldOn, Justify (CHR ''C''), SetSize (CHR ''M''), Println ''Title'',
      SetSize (CHR ''S''), Justify (CHR ''L''), BoldOff, Println ''body'']"
    unfolding l paramCalls_def textCalls_def by (auto simp: j k l)
  with c d e f show ?thesis by simp
qed

end
